theory Spec2Isabelle
  imports Main "HOL-Library.Char_ord" "HOL-Library.List_Lexorder" "HOL-Library.Sublist"
    "HOL-Library.Multiset"
begin

section \<open>The blog build script \<open>build_blog.py\<close>\<close>

text \<open>
  A shallow embedding of \<open>src/build_blog.py\<close>. A Python \<open>str\<close> is a \<open>string\<close>: one
  \<open>char\<close> per code point, which covers the code points 0 to 255. A file holds the text
  that \<open>read()\<close> returns and \<open>write()\<close> stores (decoded, newlines already translated).
  The characters that cannot be typed inside a string literal are named first.
\<close>

definition newline :: char where
  "newline = CHR 0x0A"

definition dquote :: char where
  "dquote = CHR 0x22"

definition squote :: char where
  "squote = CHR 0x27"

definition backslash :: char where
  "backslash = CHR 0x5C"

subsection \<open>The string methods the script calls\<close>

text \<open>
  \<open>str.isspace\<close> on one code point below 256, which is also what \<open>\s\<close> matches in a
  \<open>str\<close> pattern: tab to carriage return, the four separators 28 to 31, the space,
  NEL (133) and the no-break space (160).
\<close>

definition is_space :: "char \<Rightarrow> bool" where
  "is_space c \<longleftrightarrow> of_char c \<in> {9, 10, 11, 12, 13, 28, 29, 30, 31, 32, 133, 160 :: nat}"

text \<open>What \<open>\d\<close> matches below 256: the ten ASCII digits.\<close>

definition is_digit :: "char \<Rightarrow> bool" where
  "is_digit c \<longleftrightarrow> 48 \<le> (of_char c :: nat) \<and> (of_char c :: nat) \<le> 57"

text \<open>
  \<open>s.strip()\<close> and \<open>s.strip(chars)\<close>: every leading and every trailing character of the
  given class is removed, however many there are.
\<close>

definition strip_where :: "(char \<Rightarrow> bool) \<Rightarrow> string \<Rightarrow> string" where
  "strip_where P s = rev (dropWhile P (rev (dropWhile P s)))"

definition py_strip :: "string \<Rightarrow> string" where
  "py_strip s = strip_where is_space s"

definition py_strip_chars :: "string \<Rightarrow> string \<Rightarrow> string" where
  "py_strip_chars chars s = strip_where (\<lambda>c. c \<in> set chars) s"

text \<open>\<open>s.split(d)\<close> for a one-character separator: never empty, \<open>''''\<close> gives \<open>['''']\<close>.\<close>

fun py_split :: "char \<Rightarrow> string \<Rightarrow> string list" where
  "py_split d [] = [[]]"
| "py_split d (c # cs) =
     (if c = d then [] # py_split d cs
      else (case py_split d cs of l # ls \<Rightarrow> (c # l) # ls | [] \<Rightarrow> [[c]]))"

text \<open>\<open>strip_prefix p s\<close> is the rest of \<open>s\<close> after the literal \<open>p\<close>, if \<open>s\<close> starts with it.\<close>

fun strip_prefix :: "string \<Rightarrow> string \<Rightarrow> string option" where
  "strip_prefix [] s = Some s"
| "strip_prefix (p # ps) [] = None"
| "strip_prefix (p # ps) (c # cs) = (if p = c then strip_prefix ps cs else None)"

subsection \<open>\<open>parse_frontmatter\<close>\<close>

text \<open>
  The pattern is \<^verbatim>\<open>^---\s*\n(.*?)\n---\s*\n(.*)$\<close> under \<open>re.DOTALL\<close>, tried at the start
  of the text by \<open>re.match\<close>. The matcher below follows the backtracking order of the
  regular expression engine.

  \<open>ws_newline_tails s\<close> lists what can follow \<^verbatim>\<open>\s*\n\<close> at the start of \<open>s\<close>: the greedy
  \<^verbatim>\<open>\s*\<close> first takes the whole run of white space and then gives characters back until
  a newline follows, so the rest after the last newline of the run comes first.
\<close>

fun ws_newline_tails :: "string \<Rightarrow> string list" where
  "ws_newline_tails [] = []"
| "ws_newline_tails (c # cs) =
     (if is_space c then ws_newline_tails cs @ (if c = newline then [cs] else [])
      else [])"

text \<open>
  \<open>closing_delimiter s\<close> matches \<^verbatim>\<open>\n---\s*\n(.*)$\<close> at the start of \<open>s\<close> and returns group 2.
  Under \<open>DOTALL\<close> the final \<^verbatim>\<open>(.*)$\<close> takes whatever is left, so the first candidate for
  \<^verbatim>\<open>\s*\n\<close> is the one that is kept.
\<close>

definition closing_delimiter :: "string \<Rightarrow> string option" where
  "closing_delimiter s =
     (case strip_prefix (newline # ''---'') s of
        None \<Rightarrow> None
      | Some r \<Rightarrow> (case ws_newline_tails r of [] \<Rightarrow> None | t # _ \<Rightarrow> Some t))"

text \<open>
  \<open>lazy_group s\<close> matches \<^verbatim>\<open>(.*?)\n---\s*\n(.*)$\<close> at the start of \<open>s\<close>: the lazy group 1
  grows one character at a time until the closing delimiter matches. The result is
  (group 1, group 2).
\<close>

fun lazy_group :: "string \<Rightarrow> (string \<times> string) option" where
  "lazy_group [] = (case closing_delimiter [] of Some b \<Rightarrow> Some ([], b) | None \<Rightarrow> None)"
| "lazy_group (c # cs) =
     (case closing_delimiter (c # cs) of
        Some b \<Rightarrow> Some ([], b)
      | None \<Rightarrow> (case lazy_group cs of None \<Rightarrow> None | Some (g, b) \<Rightarrow> Some (c # g, b)))"

fun first_match :: "('a \<Rightarrow> 'b option) \<Rightarrow> 'a list \<Rightarrow> 'b option" where
  "first_match f [] = None"
| "first_match f (x # xs) = (case f x of Some y \<Rightarrow> Some y | None \<Rightarrow> first_match f xs)"

definition match_frontmatter :: "string \<Rightarrow> (string \<times> string) option" where
  "match_frontmatter content =
     (case strip_prefix ''---'' content of
        None \<Rightarrow> None
      | Some r \<Rightarrow> first_match lazy_group (ws_newline_tails r))"

text \<open>
  Lines 37 to 41, the body of the loop over the lines of group 1: a line with a colon
  is cut at its first colon; the key is stripped of white space, the value of white
  space, then of double quotes, then of single quotes; the entry is stored, replacing
  an earlier one under the same key.
\<close>

definition line_key :: "string \<Rightarrow> string" where
  "line_key line = py_strip (takeWhile (\<lambda>c. c \<noteq> CHR '':'') line)"

definition line_value :: "string \<Rightarrow> string" where
  "line_value line =
     py_strip_chars [squote] (py_strip_chars [dquote]
       (py_strip (tl (dropWhile (\<lambda>c. c \<noteq> CHR '':'') line))))"

definition add_line :: "(string \<rightharpoonup> string) \<Rightarrow> string \<Rightarrow> (string \<rightharpoonup> string)" where
  "add_line metadata line =
     (if CHR '':'' \<in> set line then metadata(line_key line \<mapsto> line_value line)
      else metadata)"

definition parse_frontmatter :: "string \<Rightarrow> (string \<rightharpoonup> string) \<times> string" where
  "parse_frontmatter content =
     (case match_frontmatter content of
        Some (frontmatter_text, markdown_content) \<Rightarrow>
          (foldl add_line Map.empty (py_split newline frontmatter_text), markdown_content)
      | None \<Rightarrow> (Map.empty, content))"

text \<open>
  \<open>s.replace(old, new)\<close>: every occurrence of \<open>old\<close>, found from the left and not
  overlapping, is replaced. For an empty \<open>old\<close> Python puts \<open>new\<close> before every
  character and at the end.
\<close>

function py_replace :: "string \<Rightarrow> string \<Rightarrow> string \<Rightarrow> string" where
  "py_replace old new [] = (if old = [] then new else [])"
| "py_replace old new (c # cs) =
     (if old = [] then new @ c # py_replace old new cs
      else (case strip_prefix old (c # cs) of
              Some r \<Rightarrow> new @ py_replace old new (drop (length old - 1) cs)
            | None \<Rightarrow> c # py_replace old new cs))"
  by pat_completeness auto
termination
  by (relation "measure (\<lambda>(old, new, s). length s)") auto

subsection \<open>The date of a post (lines 69 to 75 and 160 to 166)\<close>

text \<open>\<open>re.match(r'\d{4}-\d{2}-\d{2}', date)\<close>: the pattern is tried at the start only, and
  the text may go on after it.\<close>

definition iso_prefix :: "string \<Rightarrow> bool" where
  "iso_prefix s \<longleftrightarrow>
     10 \<le> length s \<and> list_all is_digit (take 4 s) \<and> s ! 4 = CHR ''-''
     \<and> list_all is_digit (take 2 (drop 5 s)) \<and> s ! 7 = CHR ''-''
     \<and> list_all is_digit (take 2 (drop 8 s))"

definition digit_val :: "char \<Rightarrow> nat" where
  "digit_val c = of_char c - 48"

definition digit_char :: "nat \<Rightarrow> char" where
  "digit_char n = char_of (48 + n)"

text \<open>
  \<open>datetime.strptime(date, '%Y-%m-%d')\<close>. The format becomes the regular expression
  \<^verbatim>\<open>(?P<Y>\d\d\d\d)-(?P<m>1[0-2]|0[1-9]|[1-9])-(?P<d>3[0-1]|[1-2]\d|0[1-9]|[1-9]| [1-9])\<close>,
  whose alternatives are tried in the order written. \<open>month_alts\<close> and \<open>day_alts\<close> list,
  in that order, the value and the rest of the text for every alternative that matches.
\<close>

definition in_range :: "char \<Rightarrow> nat \<Rightarrow> nat \<Rightarrow> bool" where
  "in_range c lo hi \<longleftrightarrow> is_digit c \<and> lo \<le> digit_val c \<and> digit_val c \<le> hi"

definition month_alts :: "string \<Rightarrow> (nat \<times> string) list" where
  "month_alts s =
     (case s of a # b # r \<Rightarrow>
          (if a = CHR ''1'' \<and> in_range b 0 2 then [(10 + digit_val b, r)] else [])
        @ (if a = CHR ''0'' \<and> in_range b 1 9 then [(digit_val b, r)] else [])
      | _ \<Rightarrow> [])
   @ (case s of a # r \<Rightarrow> (if in_range a 1 9 then [(digit_val a, r)] else []) | _ \<Rightarrow> [])"

definition day_alts :: "string \<Rightarrow> (nat \<times> string) list" where
  "day_alts s =
     (case s of a # b # r \<Rightarrow>
          (if a = CHR ''3'' \<and> in_range b 0 1 then [(30 + digit_val b, r)] else [])
        @ (if in_range a 1 2 \<and> is_digit b then [(10 * digit_val a + digit_val b, r)] else [])
        @ (if a = CHR ''0'' \<and> in_range b 1 9 then [(digit_val b, r)] else [])
      | _ \<Rightarrow> [])
   @ (case s of a # r \<Rightarrow> (if in_range a 1 9 then [(digit_val a, r)] else []) | _ \<Rightarrow> [])
   @ (case s of a # b # r \<Rightarrow>
          (if a = CHR '' '' \<and> in_range b 1 9 then [(digit_val b, r)] else [])
      | _ \<Rightarrow> [])"

text \<open>The match of the whole expression: (year, month, day, what is left of the text).\<close>

definition strptime_regex :: "string \<Rightarrow> (nat \<times> nat \<times> nat \<times> string) option" where
  "strptime_regex s =
     (if 4 \<le> length s \<and> list_all is_digit (take 4 s) then
        (case drop 4 s of
           h # r \<Rightarrow>
             if h = CHR ''-'' then
               first_match
                 (\<lambda>(m, r1). case r1 of
                      h2 # r2 \<Rightarrow>
                        if h2 = CHR ''-'' then
                          (case day_alts r2 of
                             (d, r3) # _ \<Rightarrow>
                               Some (1000 * digit_val (s ! 0) + 100 * digit_val (s ! 1)
                                       + 10 * digit_val (s ! 2) + digit_val (s ! 3), m, d, r3)
                           | [] \<Rightarrow> None)
                        else None
                    | [] \<Rightarrow> None)
                 (month_alts r)
             else None
         | [] \<Rightarrow> None)
      else None)"

definition is_leap :: "nat \<Rightarrow> bool" where
  "is_leap y \<longleftrightarrow> y mod 4 = 0 \<and> (y mod 100 \<noteq> 0 \<or> y mod 400 = 0)"

definition days_in_month :: "nat \<Rightarrow> nat \<Rightarrow> nat" where
  "days_in_month y m =
     (if m = 2 then (if is_leap y then 29 else 28)
      else if m \<in> {4, 6, 9, 11} then 30 else 31)"

text \<open>
  \<open>strptime\<close> raises \<open>ValueError\<close> (here \<open>None\<close>) when the expression does not match, when
  text is left after the match, and when the numbers are not a date of the calendar
  (years run from 1 to 9999).
\<close>

definition strptime_ymd :: "string \<Rightarrow> (nat \<times> nat \<times> nat) option" where
  "strptime_ymd s =
     (case strptime_regex s of
        None \<Rightarrow> None
      | Some (y, m, d, rest) \<Rightarrow>
          if rest = [] \<and> 1 \<le> y \<and> 1 \<le> m \<and> m \<le> 12 \<and> 1 \<le> d \<and> d \<le> days_in_month y m
          then Some (y, m, d) else None)"

definition month_name :: "nat \<Rightarrow> string" where
  "month_name m =
     [''January'', ''February'', ''March'', ''April'', ''May'', ''June'', ''July'',
      ''August'', ''September'', ''October'', ''November'', ''December''] ! (m - 1)"

text \<open>
  \<open>date_obj.strftime('%B %d, %Y')\<close> in the C locale: the English month name, the day
  with two digits, and the year as the C library prints it, with no leading zeros:
  \<open>0999-01-01\<close> becomes \<open>January 01, 999\<close>. \<open>year_text\<close> is that text for the years 1 to
  9999, the only ones \<open>strptime\<close> lets through.
\<close>

definition year_text :: "nat \<Rightarrow> string" where
  "year_text y =
     dropWhile (\<lambda>c. c = CHR ''0'')
       [digit_char (y div 1000), digit_char (y div 100 mod 10),
        digit_char (y div 10 mod 10), digit_char (y mod 10)]"

definition strftime_long :: "nat \<times> nat \<times> nat \<Rightarrow> string" where
  "strftime_long ymd =
     (case ymd of (y, m, d) \<Rightarrow>
        month_name m @ '' '' @ [digit_char (d div 10), digit_char (d mod 10)] @ '', ''
        @ year_text y)"

text \<open>The \<open>try\<close> block: any exception of \<open>strptime\<close> is swallowed by the bare \<open>except\<close> and
  leaves the date as it was.\<close>

definition format_date :: "string \<Rightarrow> string" where
  "format_date date =
     (if iso_prefix date then
        (case strptime_ymd date of Some ymd \<Rightarrow> strftime_long ymd | None \<Rightarrow> date)
      else date)"

subsection \<open>What the script takes from its environment\<close>

text \<open>
  Three library calls are parameters of the model: the conversion of the \<open>markdown\<close>
  package with the five extensions of lines 50 to 56, the text of
  \<open>datetime.now().strftime('%B %d, %Y')\<close> during the run, and \<open>str.title\<close>.
\<close>

record env =
  md_convert :: "string \<Rightarrow> string"
  today :: string
  str_title :: "string \<Rightarrow> string"

definition markdown_to_html :: "env \<Rightarrow> string \<Rightarrow> string" where
  "markdown_to_html env markdown_text = md_convert env markdown_text"

text \<open>\<open>metadata.get(key, default)\<close>.\<close>

definition dict_get :: "(string \<rightharpoonup> string) \<Rightarrow> string \<Rightarrow> string \<Rightarrow> string" where
  "dict_get metadata k dflt = (case metadata k of Some v \<Rightarrow> v | None \<Rightarrow> dflt)"

subsection \<open>The files\<close>

text \<open>
  The working directory of a run. \<open>src_dir\<close> lists the entries of \<open>blog_src/\<close> in the
  order in which the directory is enumerated; \<open>out_dir\<close> maps a name to the entry of
  \<open>blog/\<close> under that name; \<open>cwd_index\<close> is \<open>index.html\<close> of the working directory
  itself. An entry is a regular file with its text, or a directory, of which only the
  state of its own \<open>index.html\<close> matters. Both directories exist in every such world, so
  the two \<open>mkdir(exist_ok=True)\<close> of lines 129 and 130 change nothing. \<open>stdout\<close> holds
  what was printed, one event per \<open>print\<close>.
\<close>

datatype leaf = Missing | Folder | Doc string

datatype node = File string | Dir leaf

text \<open>
  The exceptions that end a run. \<open>ReError\<close> is what compiling the replacement of
  \<open>re.sub\<close> raises: \<open>re.error\<close>, or \<open>IndexError\<close> for a group name that is an identifier;
  nothing in the script tells the two apart, since it catches neither.
\<close>

datatype error = FileNotFoundError | IsADirectoryError | FileExistsError
  | NotADirectoryError | ReError

datatype event = NoMarkdownFound | CreateHint | Processing string | Generated string
  | UpdatingListing | UpdatedListing | BuildComplete nat

record world =
  src_dir :: "(string \<times> node) list"
  out_dir :: "string \<rightharpoonup> node"
  cwd_index :: leaf
  stdout :: "event list"

text \<open>The two fixed files, by their names inside \<open>blog/\<close>.\<close>

definition TEMPLATE_FILE :: string where
  "TEMPLATE_FILE = ''_template.html''"

definition BLOG_LISTING_FILE :: string where
  "BLOG_LISTING_FILE = ''index.html''"

definition print_event :: "event \<Rightarrow> world \<Rightarrow> world" where
  "print_event e w = w\<lparr>stdout := stdout w @ [e]\<rparr>"

text \<open>\<open>open(path, 'r').read()\<close> for a file of \<open>blog/\<close> and for a file of \<open>blog_src/\<close>.\<close>

definition read_out :: "world \<Rightarrow> string \<Rightarrow> error + string" where
  "read_out w name =
     (case out_dir w name of
        None \<Rightarrow> Inl FileNotFoundError
      | Some (Dir _) \<Rightarrow> Inl IsADirectoryError
      | Some (File t) \<Rightarrow> Inr t)"

definition read_src :: "world \<Rightarrow> string \<Rightarrow> error + string" where
  "read_src w name =
     (case map_of (src_dir w) name of
        None \<Rightarrow> Inl FileNotFoundError
      | Some (Dir _) \<Rightarrow> Inl IsADirectoryError
      | Some (File t) \<Rightarrow> Inr t)"

text \<open>\<open>BLOG_SRC_DIR.glob('*.md')\<close>: the names that end in \<open>.md\<close>, files or not, in the
  order of the directory.\<close>

definition is_md :: "string \<Rightarrow> bool" where
  "is_md name \<longleftrightarrow> 3 \<le> length name \<and> drop (length name - 3) name = ''.md''"

definition glob_md :: "world \<Rightarrow> string list" where
  "glob_md w = filter is_md (map fst (src_dir w))"

text \<open>\<open>md_file.stem\<close>: the name up to its last dot, when that dot is neither the first
  nor the last character.\<close>

definition stem :: "string \<Rightarrow> string" where
  "stem name =
     (if CHR ''.'' \<in> set name then
        (let i = length name - Suc (length (takeWhile (\<lambda>c. c \<noteq> CHR ''.'') (rev name)))
         in if 0 < i \<and> i < length name - 1 then take i name else name)
      else name)"

text \<open>
  \<open>post_dir = BLOG_OUTPUT_DIR / slug\<close> and \<open>post_dir.mkdir(exist_ok=True)\<close>. A path drops
  the component \<open>.\<close>, so the slug \<open>.\<close> names \<open>blog/\<close> itself, and the slug \<open>..\<close> names the
  working directory; both exist.
\<close>

definition mkdir_post_dir :: "string \<Rightarrow> world \<Rightarrow> error + world" where
  "mkdir_post_dir slug w =
     (if slug = ''.'' \<or> slug = ''..'' then Inr w
      else (case out_dir w slug of
              None \<Rightarrow> Inr (w\<lparr>out_dir := (out_dir w)(slug \<mapsto> Dir Missing)\<rparr>)
            | Some (Dir _) \<Rightarrow> Inr w
            | Some (File _) \<Rightarrow> Inl FileExistsError))"

text \<open>\<open>open(post_dir / 'index.html', 'w').write(post_html)\<close>.\<close>

definition write_page :: "string \<Rightarrow> string \<Rightarrow> world \<Rightarrow> error + world" where
  "write_page slug post_html w =
     (if slug = ''.'' then
        (case out_dir w ''index.html'' of
           Some (Dir _) \<Rightarrow> Inl IsADirectoryError
         | _ \<Rightarrow> Inr (w\<lparr>out_dir := (out_dir w)(''index.html'' \<mapsto> File post_html)\<rparr>))
      else if slug = ''..'' then
        (case cwd_index w of
           Folder \<Rightarrow> Inl IsADirectoryError
         | _ \<Rightarrow> Inr (w\<lparr>cwd_index := Doc post_html\<rparr>))
      else
        (case out_dir w slug of
           None \<Rightarrow> Inl FileNotFoundError
         | Some (File _) \<Rightarrow> Inl NotADirectoryError
         | Some (Dir Folder) \<Rightarrow> Inl IsADirectoryError
         | Some (Dir _) \<Rightarrow> Inr (w\<lparr>out_dir := (out_dir w)(slug \<mapsto> Dir (Doc post_html))\<rparr>)))"

subsection \<open>\<open>generate_blog_post\<close>\<close>

definition default_title :: "env \<Rightarrow> string \<Rightarrow> string" where
  "default_title env slug = str_title env (py_replace ''-'' '' '' slug)"

text \<open>Lines 65 to 83: the five replacements, each on the result of the one before.\<close>

definition fill_template ::
  "env \<Rightarrow> (string \<rightharpoonup> string) \<Rightarrow> string \<Rightarrow> string \<Rightarrow> string \<Rightarrow> string" where
  "fill_template env metadata html_content slug template =
     (let title = dict_get metadata ''title'' (default_title env slug);
          description = dict_get metadata ''description'' [];
          date = format_date (dict_get metadata ''date'' (today env));
          html = py_replace ''{{TITLE}}'' title template;
          html = py_replace ''{{DESCRIPTION}}'' description html;
          html = py_replace ''{{DATE}}'' date html;
          html = py_replace ''{{SLUG}}'' slug html;
          html = py_replace ''{{CONTENT}}'' html_content html
      in html)"

definition generate_blog_post ::
  "env \<Rightarrow> world \<Rightarrow> (string \<rightharpoonup> string) \<Rightarrow> string \<Rightarrow> string \<Rightarrow> string \<Rightarrow> error + string" where
  "generate_blog_post env w metadata html_content slug template_path =
     (case read_out w template_path of
        Inl e \<Rightarrow> Inl e
      | Inr template \<Rightarrow> Inr (fill_template env metadata html_content slug template))"

subsection \<open>\<open>update_blog_listing\<close>\<close>

text \<open>One entry of the list \<open>posts\<close>: the dictionary built at lines 186 to 191.\<close>

record post =
  post_slug :: string
  post_title :: string
  post_date :: string
  post_description :: string

text \<open>
  \<open>sorted(posts, key=lambda x: x.get('date', ''), reverse=True)\<close>. Strings compare by code
  point, a proper prefix being smaller. The sort is stable, and with \<open>reverse=True\<close> it
  still keeps posts of equal date in the order they had: the list is reversed, sorted
  upwards and reversed again.
\<close>

definition sorted_posts :: "post list \<Rightarrow> post list" where
  "sorted_posts posts = rev (sort_key post_date (rev posts))"

definition quoted :: "string \<Rightarrow> string" where
  "quoted s = dquote # s @ [dquote]"

text \<open>The f-string of lines 102 to 111, line by line.\<close>

definition post_fragment :: "post \<Rightarrow> string" where
  "post_fragment p =
     (let slug = post_slug p; title = post_title p; date = post_date p;
          description = post_description p
      in [newline]
       @ ''          <div class='' @ quoted ''view-list-item'' @ '' style=''
           @ quoted ''margin-bottom: 1.5rem; padding-bottom: 1.5rem; border-bottom: 1px solid #e0e0e0;''
           @ ''>'' @ [newline]
       @ ''            <i class='' @ quoted ''far fa-file-alt pub-icon'' @ '' aria-hidden=''
           @ quoted ''true'' @ ''></i>'' @ [newline]
       @ ''            <a href='' @ quoted (''/blog/'' @ slug @ ''/'') @ '' style=''
           @ quoted ''font-size: 1.1rem; font-weight: 500;'' @ ''>'' @ title @ ''</a>'' @ [newline]
       @ ''            <div class='' @ quoted ''article-metadata'' @ '' style=''
           @ quoted ''margin-top: 0.5rem;'' @ ''>'' @ [newline]
       @ ''              <span class='' @ quoted ''article-date'' @ ''>'' @ date @ ''</span>''
           @ [newline]
       @ ''            </div>'' @ [newline]
       @ ''            ''
           @ (if description \<noteq> [] then
                ''<p style='' @ quoted ''margin-top: 0.5rem; color: #666;'' @ ''>'' @ description
                @ ''</p>''
              else [])
           @ [newline]
       @ ''          </div>'' @ [newline])"

text \<open>Lines 91 to 113.\<close>

definition blog_list_html :: "post list \<Rightarrow> string" where
  "blog_list_html posts =
     (if posts \<noteq> [] then concat (map post_fragment (sorted_posts posts))
      else ''<p>No blog posts yet. Check back soon!</p>'')"

definition open_tag :: string where
  "open_tag = ''<div id='' @ quoted ''blog-list'' @ ''>''"

definition close_tag :: string where
  "close_tag = ''</div>''"

text \<open>The replacement of line 118.\<close>

definition new_region :: "string \<Rightarrow> string" where
  "new_region html = open_tag @ html @ [newline] @ ''          </div>''"

text \<open>
  \<open>re.sub\<close> first compiles the replacement, whether or not the pattern matches anywhere.
  The tokenizer takes a backslash together with the character after it; a backslash at
  the very end is an error.
\<close>

datatype token = Plain char | Escaped char

definition cons_ok :: "'a \<Rightarrow> error + 'a list \<Rightarrow> error + 'a list" where
  "cons_ok x r = (case r of Inl e \<Rightarrow> Inl e | Inr xs \<Rightarrow> Inr (x # xs))"

fun tokenize :: "string \<Rightarrow> error + token list" where
  "tokenize [] = Inr []"
| "tokenize [c] = (if c = backslash then Inl ReError else Inr [Plain c])"
| "tokenize (c # d # cs) =
     (if c = backslash then cons_ok (Escaped d) (tokenize cs)
      else cons_ok (Plain c) (tokenize (d # cs)))"

text \<open>
  The compiled replacement is a sequence of characters and references to the whole
  match. The pattern of line 117 has no group, so every reference to a group other than
  group 0 is an error.
\<close>

datatype piece = Chr char | WholeMatch

definition is_octal :: "char \<Rightarrow> bool" where
  "is_octal c \<longleftrightarrow> 48 \<le> (of_char c :: nat) \<and> (of_char c :: nat) \<le> 55"

definition is_ascii_letter :: "char \<Rightarrow> bool" where
  "is_ascii_letter c \<longleftrightarrow>
     (65 \<le> (of_char c :: nat) \<and> (of_char c :: nat) \<le> 90)
     \<or> (97 \<le> (of_char c :: nat) \<and> (of_char c :: nat) \<le> 122)"

text \<open>The escapes \<^verbatim>\<open>\a \b \f \n \r \t \v \\\<close>.\<close>

definition escape_char :: "char \<Rightarrow> char option" where
  "escape_char c =
     (if c = CHR ''a'' then Some (CHR 0x07)
      else if c = CHR ''b'' then Some (CHR 0x08)
      else if c = CHR ''f'' then Some (CHR 0x0C)
      else if c = CHR ''n'' then Some (CHR 0x0A)
      else if c = CHR ''r'' then Some (CHR 0x0D)
      else if c = CHR ''t'' then Some (CHR 0x09)
      else if c = CHR ''v'' then Some (CHR 0x0B)
      else if c = backslash then Some backslash
      else None)"

text \<open>After \<^verbatim>\<open>\0\<close>: the values of at most two octal digits that follow.\<close>

definition octal_run :: "token list \<Rightarrow> nat list" where
  "octal_run ts =
     (case ts of
        Plain a # Plain b # _ \<Rightarrow>
          (if is_octal a then (if is_octal b then [digit_val a, digit_val b] else [digit_val a])
           else [])
      | Plain a # _ \<Rightarrow> (if is_octal a then [digit_val a] else [])
      | _ \<Rightarrow> [])"

text \<open>
  The name of \<^verbatim>\<open>\g<name>\<close> is read as Python 3.11 reads it: a name that is an identifier
  is looked up among the named groups, of which the pattern has none; any other name goes
  through \<open>int\<close>. So the name refers to an existing group, group 0, exactly when \<open>int\<close>
  accepts it with the value 0: white space around it, one sign, and the digit 0 repeated,
  with single underscores allowed between digits and at most 4300 digits. The white
  space of \<open>int\<close> is tab to carriage return, the space, NEL and the no-break space.
\<close>

definition int_space :: "char \<Rightarrow> bool" where
  "int_space c \<longleftrightarrow> of_char c \<in> {9, 10, 11, 12, 13, 32, 133, 160 :: nat}"

fun zero_literal :: "string \<Rightarrow> bool" where
  "zero_literal [] = False"
| "zero_literal [c] = (c = CHR ''0'')"
| "zero_literal (c # d # r) =
     (c = CHR ''0'' \<and> (if d = CHR ''_'' then zero_literal r else zero_literal (d # r)))"

definition int_is_zero :: "string \<Rightarrow> bool" where
  "int_is_zero name \<longleftrightarrow>
     (let t = strip_where int_space name;
          u = (case t of c # r \<Rightarrow> if c = CHR ''+'' \<or> c = CHR ''-'' then r else t | [] \<Rightarrow> [])
      in zero_literal u \<and> length (filter (\<lambda>c. c = CHR ''0'') u) \<le> 4300)"

text \<open>The text of a token, as it stands in the replacement.\<close>

definition token_text :: "token \<Rightarrow> string" where
  "token_text t = (case t of Plain c \<Rightarrow> [c] | Escaped c \<Rightarrow> [backslash, c])"

text \<open>
  \<open>parse_template\<close> over the tokens:
  \<^item> \<^verbatim>\<open>\g<name>\<close>: the name runs to the next token \<^verbatim>\<open>>\<close>, which must exist; only a name that
    \<open>int\<close> reads as 0 refers to an existing group, the whole match;
  \<^item> \<^verbatim>\<open>\0\<close> with up to two octal digits is the character of that code;
  \<^item> \<^verbatim>\<open>\1\<close> to \<^verbatim>\<open>\9\<close>: three octal digits are the character of that code, up to 255;
    anything else is a reference to a group that does not exist;
  \<^item> one of the escapes above is its character; another ASCII letter is a bad escape;
    any other character stays behind its backslash.
\<close>

function parse_tokens :: "token list \<Rightarrow> error + piece list" where
  "parse_tokens [] = Inr []"
| "parse_tokens (Plain c # ts) = cons_ok (Chr c) (parse_tokens ts)"
| "parse_tokens (Escaped c # ts) =
     (if c = CHR ''g'' then
        (case ts of
           Plain lt # ts' \<Rightarrow>
             if lt = CHR ''<'' then
               (let name = takeWhile (\<lambda>t. t \<noteq> Plain (CHR ''>'')) ts' in
                if length name < length ts' \<and> int_is_zero (concat (map token_text name))
                then cons_ok WholeMatch (parse_tokens (drop (Suc (length name)) ts'))
                else Inl ReError)
             else Inl ReError
         | _ \<Rightarrow> Inl ReError)
      else if c = CHR ''0'' then
        cons_ok (Chr (char_of (foldl (\<lambda>v d. 8 * v + d) 0 (octal_run ts))))
          (parse_tokens (drop (length (octal_run ts)) ts))
      else if is_digit c then
        (case ts of
           Plain d1 # Plain d2 # ts' \<Rightarrow>
             if is_octal c \<and> is_octal d1 \<and> is_octal d2
                \<and> 64 * digit_val c + 8 * digit_val d1 + digit_val d2 \<le> 255
             then cons_ok (Chr (char_of (64 * digit_val c + 8 * digit_val d1 + digit_val d2)))
                    (parse_tokens ts')
             else Inl ReError
         | _ \<Rightarrow> Inl ReError)
      else
        (case escape_char c of
           Some x \<Rightarrow> cons_ok (Chr x) (parse_tokens ts)
         | None \<Rightarrow>
             if is_ascii_letter c then Inl ReError
             else cons_ok (Chr backslash) (cons_ok (Chr c) (parse_tokens ts))))"
  by pat_completeness auto
termination
  by (relation "measure length") auto

definition parse_template :: "string \<Rightarrow> error + piece list" where
  "parse_template repl =
     (case tokenize repl of Inl e \<Rightarrow> Inl e | Inr ts \<Rightarrow> parse_tokens ts)"

text \<open>The text a compiled replacement stands for at a match \<open>m\<close>.\<close>

definition expand :: "piece list \<Rightarrow> string \<Rightarrow> string" where
  "expand ps m = concat (map (\<lambda>p. case p of Chr c \<Rightarrow> [c] | WholeMatch \<Rightarrow> m) ps)"

text \<open>
  The pattern of line 117 under \<open>DOTALL\<close>. \<open>find_close s\<close> is what the lazy \<^verbatim>\<open>.*?\<close> takes at
  the start of \<open>s\<close>: the text before the first \<^verbatim>\<open></div>\<close>. \<open>region_match s\<close> is the match
  of the whole pattern at the start of \<open>s\<close>.
\<close>

fun find_close :: "string \<Rightarrow> string option" where
  "find_close [] = None"
| "find_close (c # cs) =
     (case strip_prefix close_tag (c # cs) of
        Some r \<Rightarrow> Some []
      | None \<Rightarrow> (case find_close cs of None \<Rightarrow> None | Some m \<Rightarrow> Some (c # m)))"

definition region_match :: "string \<Rightarrow> string option" where
  "region_match s =
     (case strip_prefix open_tag s of
        None \<Rightarrow> None
      | Some r \<Rightarrow> (case find_close r of None \<Rightarrow> None | Some m \<Rightarrow> Some (open_tag @ m @ close_tag)))"

text \<open>
  The scan of \<open>re.sub\<close> with no \<open>count\<close>: from left to right, every match is replaced and
  the scan goes on behind it; where the pattern does not match, the character is kept.
\<close>

function sub_regions :: "(string \<Rightarrow> string) \<Rightarrow> string \<Rightarrow> string" where
  "sub_regions f [] = []"
| "sub_regions f (c # cs) =
     (case region_match (c # cs) of
        Some m \<Rightarrow> f m @ sub_regions f (drop (length m - 1) cs)
      | None \<Rightarrow> c # sub_regions f cs)"
  by pat_completeness auto
termination
  by (relation "measure (\<lambda>(f, s). length s)") auto

definition re_sub_blog_list :: "string \<Rightarrow> string \<Rightarrow> error + string" where
  "re_sub_blog_list repl s =
     (case parse_template repl of
        Inl e \<Rightarrow> Inl e
      | Inr ps \<Rightarrow> Inr (sub_regions (expand ps) s))"

definition update_blog_listing :: "post list \<Rightarrow> world \<Rightarrow> error + world" where
  "update_blog_listing posts w =
     (case read_out w BLOG_LISTING_FILE of
        Inl e \<Rightarrow> Inl e
      | Inr listing_html \<Rightarrow>
          (case re_sub_blog_list (new_region (blog_list_html posts)) listing_html of
             Inl e \<Rightarrow> Inl e
           | Inr listing_html' \<Rightarrow>
               Inr (w\<lparr>out_dir := (out_dir w)(BLOG_LISTING_FILE \<mapsto> File listing_html')\<rparr>)))"

subsection \<open>\<open>main\<close>\<close>

text \<open>Lines 150 to 166 and 186 to 191: the entry of \<open>posts\<close> for one source file.\<close>

definition post_record :: "env \<Rightarrow> string \<Rightarrow> string \<Rightarrow> post" where
  "post_record env slug content =
     (let metadata = fst (parse_frontmatter content);
          title = dict_get metadata ''title'' (default_title env slug);
          date = format_date (dict_get metadata ''date'' (today env))
      in \<lparr>post_slug = slug, post_title = title, post_date = date,
          post_description = dict_get metadata ''description'' []\<rparr>)"

text \<open>
  The loop of lines 142 to 191. An exception ends it: the result is then the error, the
  world as the exception left it, and the posts gathered so far.
\<close>

fun process_files ::
  "env \<Rightarrow> string list \<Rightarrow> world \<Rightarrow> post list \<Rightarrow> error option \<times> world \<times> post list" where
  "process_files env [] w posts = (None, w, posts)"
| "process_files env (name # md_files) w posts =
     (let w1 = print_event (Processing name) w in
      case read_src w1 name of
        Inl e \<Rightarrow> (Some e, w1, posts)
      | Inr content \<Rightarrow>
          (case parse_frontmatter content of
             (metadata, markdown_content) \<Rightarrow>
               (let slug = stem name;
                    html_content = markdown_to_html env markdown_content
                in case generate_blog_post env w1 metadata html_content slug TEMPLATE_FILE of
                     Inl e \<Rightarrow> (Some e, w1, posts)
                   | Inr post_html \<Rightarrow>
                       (case mkdir_post_dir slug w1 of
                          Inl e \<Rightarrow> (Some e, w1, posts)
                        | Inr w2 \<Rightarrow>
                            (case write_page slug post_html w2 of
                               Inl e \<Rightarrow> (Some e, w2, posts)
                             | Inr w3 \<Rightarrow>
                                 process_files env md_files (print_event (Generated slug) w3)
                                   (posts @ [post_record env slug content]))))))"

text \<open>The result of \<open>main\<close>: \<open>None\<close> when it returns, the exception when it does not.\<close>

definition main :: "env \<Rightarrow> world \<Rightarrow> error option \<times> world" where
  "main env w =
     (let md_files = glob_md w in
      if md_files = [] then
        (None, print_event CreateHint (print_event NoMarkdownFound w))
      else
        (case process_files env md_files w [] of
           (Some e, w1, posts) \<Rightarrow> (Some e, w1)
         | (None, w1, posts) \<Rightarrow>
             (let w2 = print_event UpdatingListing w1 in
              case update_blog_listing posts w2 of
                Inl e \<Rightarrow> (Some e, w2)
              | Inr w3 \<Rightarrow>
                  (None, print_event (BuildComplete (length posts))
                           (print_event UpdatedListing w3)))))"
subsection \<open>Notions the properties are stated with\<close>

text \<open>
  The language of the frontmatter pattern, read off the regular expression: three
  hyphens, white space, a newline, any text, a newline, three hyphens, white space, a
  newline, any text.
\<close>

definition frontmatter_pattern :: "string \<Rightarrow> bool" where
  "frontmatter_pattern content \<longleftrightarrow>
     (\<exists>ws1 g1 ws2 g2.
        content = ''---'' @ ws1 @ newline # g1 @ newline # ''---'' @ ws2 @ newline # g2
        \<and> (\<forall>c\<in>set ws1. is_space c) \<and> (\<forall>c\<in>set ws2. is_space c))"





text \<open>
  The replacement as the specification words it in section 4.4, step 4: the first
  \<open>open_tag\<close> of the document, and from there up to the last \<open>close_tag\<close> behind it.
  \<open>split_at_first p s\<close> cuts \<open>s\<close> around the first occurrence of \<open>p\<close>, \<open>split_at_last\<close>
  around the last.
\<close>

fun split_at_first :: "string \<Rightarrow> string \<Rightarrow> (string \<times> string) option" where
  "split_at_first p [] = (if p = [] then Some ([], []) else None)"
| "split_at_first p (c # cs) =
     (case strip_prefix p (c # cs) of
        Some r \<Rightarrow> Some ([], r)
      | None \<Rightarrow> (case split_at_first p cs of None \<Rightarrow> None | Some (a, b) \<Rightarrow> Some (c # a, b)))"

definition split_at_last :: "string \<Rightarrow> string \<Rightarrow> (string \<times> string) option" where
  "split_at_last p s =
     (case split_at_first (rev p) (rev s) of None \<Rightarrow> None | Some (a, b) \<Rightarrow> Some (rev b, rev a))"

definition greedy_first_region :: "string \<Rightarrow> string \<Rightarrow> string" where
  "greedy_first_region repl s =
     (case split_at_first open_tag s of
        None \<Rightarrow> s
      | Some (pre, r) \<Rightarrow>
          (case split_at_last close_tag r of
             None \<Rightarrow> s
           | Some (mid, rest) \<Rightarrow> pre @ repl @ rest))"

text \<open>
  A small site for running the whole build: one post with a title and an ISO date, a
  template and a listing that holds the empty region. \<open>build_outcome\<close> is what a run
  leaves to look at: the result of \<open>main\<close>, the entry \<open>blog/a\<close> and the listing.
\<close>

definition example_env :: env where
  "example_env = \<lparr>md_convert = id, today = ''May 1'', str_title = id\<rparr>"

definition one_post_world :: world where
  "one_post_world =
     \<lparr>src_dir = [(''a.md'', File (''---'' @ newline # ''title: A'' @ newline # ''date: 2024-01-01''
                       @ newline # ''---'' @ newline # ''hi''))],
       out_dir = [TEMPLATE_FILE \<mapsto> File ''<h1>{{TITLE}}</h1>{{CONTENT}}'',
                  BLOG_LISTING_FILE \<mapsto> File (open_tag @ close_tag)],
       cwd_index = Missing, stdout = []\<rparr>"

definition build_outcome :: "env \<Rightarrow> world \<Rightarrow> error option \<times> node option \<times> node option" where
  "build_outcome env w =
     (case main env w of (r, w') \<Rightarrow> (r, out_dir w' ''a'', out_dir w' BLOG_LISTING_FILE))"

text \<open>
  Three more sites: two posts dated January and June, enumerated in that order; a site
  whose template is missing; a site whose listing is missing.
\<close>

definition two_post_world :: world where
  "two_post_world =
     \<lparr>src_dir =
        [(''winter.md'', File (''---'' @ newline # ''date: 2024-01-01'' @ newline # ''---''
                              @ newline # ''snow'')),
         (''summer.md'', File (''---'' @ newline # ''date: 2024-06-01'' @ newline # ''---''
                              @ newline # ''sun''))],
       out_dir = [TEMPLATE_FILE \<mapsto> File ''{{CONTENT}}'',
                  BLOG_LISTING_FILE \<mapsto> File (open_tag @ close_tag)],
       cwd_index = Missing, stdout = []\<rparr>"

definition no_template_world :: world where
  "no_template_world =
     \<lparr>src_dir = [(''a.md'', File ''hi'')],
       out_dir = [BLOG_LISTING_FILE \<mapsto> File (open_tag @ close_tag)],
       cwd_index = Missing, stdout = []\<rparr>"

definition no_listing_world :: world where
  "no_listing_world =
     \<lparr>src_dir = [(''winter.md'', File ''snow''), (''summer.md'', File ''sun'')],
       out_dir = [TEMPLATE_FILE \<mapsto> File ''<p>{{CONTENT}}</p>''],
       cwd_index = Missing, stdout = []\<rparr>"
section \<open>Properties\<close>

subsection \<open>The frontmatter pattern\<close>

lemma strip_prefix_iff: "strip_prefix p s = Some r \<longleftrightarrow> s = p @ r"
  by (induction p s rule: strip_prefix.induct) auto

lemma strip_prefix_append: "strip_prefix p (p @ r) = Some r"
  by (simp add: strip_prefix_iff)

lemma is_space_newline: "is_space newline"
  by (simp add: is_space_def newline_def)

lemma ws_newline_tails_iff:
  "t \<in> set (ws_newline_tails s) \<longleftrightarrow> (\<exists>ws. s = ws @ newline # t \<and> (\<forall>c\<in>set ws. is_space c))"
proof (induction s)
  case Nil
  then show ?case by simp
next
  case (Cons c cs)
  show ?case
  proof (cases "is_space c")
    case False
    have "\<not> (\<exists>ws. c # cs = ws @ newline # t \<and> (\<forall>c\<in>set ws. is_space c))"
    proof
      assume "\<exists>ws. c # cs = ws @ newline # t \<and> (\<forall>c\<in>set ws. is_space c)"
      then obtain ws where ws: "c # cs = ws @ newline # t" "\<forall>c\<in>set ws. is_space c" by blast
      show False
      proof (cases ws)
        case Nil
        with ws have "c = newline" by simp
        with False show False by (simp add: is_space_newline)
      next
        case (Cons w ws')
        with ws have "c = w" "is_space w" by auto
        with False show False by simp
      qed
    qed
    with False show ?thesis by simp
  next
    case True
    show ?thesis
    proof
      assume "t \<in> set (ws_newline_tails (c # cs))"
      with True have "t \<in> set (ws_newline_tails cs) \<or> (c = newline \<and> t = cs)"
        by (auto split: if_splits)
      then show "\<exists>ws. c # cs = ws @ newline # t \<and> (\<forall>c\<in>set ws. is_space c)"
      proof
        assume "t \<in> set (ws_newline_tails cs)"
        with Cons.IH obtain ws where "cs = ws @ newline # t" "\<forall>c\<in>set ws. is_space c" by blast
        with True have "c # cs = (c # ws) @ newline # t \<and> (\<forall>x\<in>set (c # ws). is_space x)" by simp
        then show ?thesis by blast
      next
        assume "c = newline \<and> t = cs"
        then have "c # cs = [] @ newline # t \<and> (\<forall>x\<in>set []. is_space x)" by simp
        then show ?thesis by blast
      qed
    next
      assume "\<exists>ws. c # cs = ws @ newline # t \<and> (\<forall>c\<in>set ws. is_space c)"
      then obtain ws where ws: "c # cs = ws @ newline # t" "\<forall>c\<in>set ws. is_space c" by blast
      show "t \<in> set (ws_newline_tails (c # cs))"
      proof (cases ws)
        case Nil
        with ws True show ?thesis by simp
      next
        case (Cons w ws')
        with ws have "cs = ws' @ newline # t" "\<forall>c\<in>set ws'. is_space c" by auto
        then have "t \<in> set (ws_newline_tails cs)" using Cons.IH by blast
        with True show ?thesis by simp
      qed
    qed
  qed
qed

lemma closing_delimiter_sound:
  assumes "closing_delimiter s = Some b"
  shows "\<exists>ws. s = newline # ''---'' @ ws @ newline # b \<and> (\<forall>c\<in>set ws. is_space c)"
proof -
  from assms obtain r where r: "strip_prefix (newline # ''---'') s = Some r"
    by (auto simp: closing_delimiter_def split: option.splits)
  with assms have "b \<in> set (ws_newline_tails r)"
    by (auto simp: closing_delimiter_def split: list.splits)
  then obtain ws where "r = ws @ newline # b" "\<forall>c\<in>set ws. is_space c"
    using ws_newline_tails_iff by blast
  moreover from r have "s = (newline # ''---'') @ r" by (simp only: strip_prefix_iff)
  ultimately show ?thesis by auto
qed

lemma closing_delimiter_complete:
  assumes "\<forall>c\<in>set ws. is_space c"
  shows "closing_delimiter (newline # ''---'' @ ws @ newline # b) \<noteq> None"
proof -
  have r: "strip_prefix (newline # ''---'') ((newline # ''---'') @ (ws @ newline # b))
            = Some (ws @ newline # b)"
    by (rule strip_prefix_append)
  have "b \<in> set (ws_newline_tails (ws @ newline # b))"
    using assms ws_newline_tails_iff by blast
  then have "ws_newline_tails (ws @ newline # b) \<noteq> []" by auto
  with r show ?thesis
    by (auto simp: closing_delimiter_def split: list.splits)
qed

lemma lazy_group_sound:
  "lazy_group s = Some (g, b) \<Longrightarrow>
   \<exists>ws. s = g @ newline # ''---'' @ ws @ newline # b \<and> (\<forall>c\<in>set ws. is_space c)"
proof (induction s arbitrary: g)
  case Nil
  then have "closing_delimiter [] = Some b" "g = []" by (auto split: option.splits)
  then show ?case using closing_delimiter_sound by fastforce
next
  case (Cons c cs)
  show ?case
  proof (cases "closing_delimiter (c # cs)")
    case (Some b')
    with Cons.prems have "g = []" "b' = b" by auto
    with Some show ?thesis using closing_delimiter_sound by fastforce
  next
    case None
    with Cons.prems obtain g' where g': "lazy_group cs = Some (g', b)" "g = c # g'"
      by (auto split: option.splits)
    from Cons.IH[OF g'(1)] g'(2) show ?thesis by auto
  qed
qed

lemma lazy_group_complete:
  "closing_delimiter s \<noteq> None \<Longrightarrow> lazy_group (g @ s) \<noteq> None"
proof (induction g)
  case Nil
  then show ?case by (cases s) (auto split: option.splits)
next
  case (Cons c g)
  then show ?case by (auto split: option.splits)
qed

lemma first_match_sound: "first_match f xs = Some y \<Longrightarrow> \<exists>x\<in>set xs. f x = Some y"
  by (induction xs) (auto split: option.splits)

lemma first_match_complete: "x \<in> set xs \<Longrightarrow> f x \<noteq> None \<Longrightarrow> first_match f xs \<noteq> None"
  by (induction xs) (auto split: option.splits)

lemma match_frontmatter_sound:
  assumes "match_frontmatter content = Some (g, b)"
  shows "frontmatter_pattern content"
proof -
  from assms obtain r where r: "strip_prefix ''---'' content = Some r"
    and fm: "first_match lazy_group (ws_newline_tails r) = Some (g, b)"
    by (auto simp: match_frontmatter_def split: option.splits)
  from first_match_sound[OF fm] obtain t where t: "t \<in> set (ws_newline_tails r)"
    and lg: "lazy_group t = Some (g, b)" by blast
  from t obtain ws1 where ws1: "r = ws1 @ newline # t" "\<forall>c\<in>set ws1. is_space c"
    using ws_newline_tails_iff by blast
  from lazy_group_sound[OF lg] obtain ws2 where
    ws2: "t = g @ newline # ''---'' @ ws2 @ newline # b" "\<forall>c\<in>set ws2. is_space c" by blast
  from r have "content = ''---'' @ r" by (simp only: strip_prefix_iff)
  with ws1 ws2 show ?thesis unfolding frontmatter_pattern_def by blast
qed

lemma match_frontmatter_complete:
  assumes "frontmatter_pattern content"
  shows "match_frontmatter content \<noteq> None"
proof -
  from assms obtain ws1 g1 ws2 g2 where
    c: "content = ''---'' @ (ws1 @ newline # g1 @ newline # ''---'' @ ws2 @ newline # g2)"
    and ws1: "\<forall>c\<in>set ws1. is_space c" and ws2: "\<forall>c\<in>set ws2. is_space c"
    unfolding frontmatter_pattern_def by auto
  let ?t = "g1 @ newline # ''---'' @ ws2 @ newline # g2"
  have r: "strip_prefix ''---'' content = Some (ws1 @ newline # ?t)"
    unfolding c by (rule strip_prefix_append)
  have t: "?t \<in> set (ws_newline_tails (ws1 @ newline # ?t))"
    using ws1 ws_newline_tails_iff by blast
  have "closing_delimiter (newline # ''---'' @ ws2 @ newline # g2) \<noteq> None"
    using ws2 by (rule closing_delimiter_complete)
  then have "lazy_group ?t \<noteq> None" by (rule lazy_group_complete)
  with t have "first_match lazy_group (ws_newline_tails (ws1 @ newline # ?t)) \<noteq> None"
    by (rule first_match_complete)
  with r show ?thesis by (simp add: match_frontmatter_def)
qed

lemma match_frontmatter_iff:
  "match_frontmatter content = None \<longleftrightarrow> \<not> frontmatter_pattern content"
proof
  assume "match_frontmatter content = None"
  then show "\<not> frontmatter_pattern content"
    using match_frontmatter_complete by blast
next
  assume "\<not> frontmatter_pattern content"
  then show "match_frontmatter content = None"
    using match_frontmatter_sound by (cases "match_frontmatter content") auto
qed

text \<open>
  C7. A text that does not start with a block of the frontmatter pattern, a malformed
  block included, is returned whole with the empty mapping. \<open>parse_frontmatter\<close> is a
  total function into pairs, so no input makes it raise.
\<close>

theorem parse_frontmatter_without_block:
  "\<not> frontmatter_pattern content \<Longrightarrow> parse_frontmatter content = (Map.empty, content)"
  using match_frontmatter_sound [of content]
  by (cases "match_frontmatter content") (auto simp: parse_frontmatter_def)

text \<open>The witness is a block whose closing line is missing.\<close>

theorem parse_frontmatter_without_block_witness:
  "\<not> frontmatter_pattern (''---'' @ newline # ''title: x'' @ newline # ''text'')
   \<and> parse_frontmatter (''---'' @ newline # ''title: x'' @ newline # ''text'')
       = (Map.empty, ''---'' @ newline # ''title: x'' @ newline # ''text'')"
proof -
  have "match_frontmatter (''---'' @ newline # ''title: x'' @ newline # ''text'') = None"
    by (simp add: match_frontmatter_def closing_delimiter_def is_space_def newline_def)
  then have h: "\<not> frontmatter_pattern (''---'' @ newline # ''title: x'' @ newline # ''text'')"
    using match_frontmatter_iff by blast
  show ?thesis
    using h parse_frontmatter_without_block [OF h] by simp
qed
subsection \<open>The lines of a frontmatter block\<close>
lemma dropWhile_all_then:
  assumes "\<forall>c\<in>set a. P c" and "s = [] \<or> \<not> P (hd s)"
  shows "dropWhile P (a @ s) = s"
proof -
  have "dropWhile P (a @ s) = dropWhile P s"
    using assms(1) by (simp add: dropWhile_append2)
  also have "\<dots> = s"
    using assms(2) by (cases s) auto
  finally show ?thesis .
qed

lemma strip_where_middle:
  assumes a: "\<forall>c\<in>set a. P c" and b: "\<forall>c\<in>set b. P c"
    and s: "s \<noteq> []" "\<not> P (hd s)" "\<not> P (last s)"
  shows "strip_where P (a @ s @ b) = s"
proof -
  have 1: "dropWhile P (a @ s @ b) = s @ b"
    using a s by (intro dropWhile_all_then) (auto simp: hd_append)
  have 2: "dropWhile P (rev b @ rev s) = rev s"
    using b s by (intro dropWhile_all_then) (auto simp: hd_rev)
  show ?thesis
    unfolding strip_where_def 1 by (simp add: 2)
qed

lemma strip_where_decomposition:
  "\<exists>a b. s = a @ strip_where P s @ b \<and> (\<forall>c\<in>set a. P c) \<and> (\<forall>c\<in>set b. P c)"
proof -
  let ?d = "dropWhile P s"
  have 1: "s = takeWhile P s @ ?d" by simp
  have 2: "rev ?d = takeWhile P (rev ?d) @ dropWhile P (rev ?d)" by simp
  then have "?d = rev (dropWhile P (rev ?d)) @ rev (takeWhile P (rev ?d))"
    by (metis rev_append rev_rev_ident)
  then have "s = takeWhile P s @ strip_where P s @ rev (takeWhile P (rev ?d))"
    unfolding strip_where_def using 1 by metis
  moreover have "\<forall>c\<in>set (takeWhile P s). P c" by (auto dest: set_takeWhileD)
  moreover have "\<forall>c\<in>set (rev (takeWhile P (rev ?d))). P c" by (auto dest: set_takeWhileD)
  ultimately show ?thesis by blast
qed

lemma strip_where_ends:
  "strip_where P s = [] \<or> (\<not> P (hd (strip_where P s)) \<and> \<not> P (last (strip_where P s)))"
proof (cases "strip_where P s = []")
  case True
  then show ?thesis by simp
next
  case False
  let ?d = "dropWhile P s"
  let ?e = "dropWhile P (rev ?d)"
  from False have e: "?e \<noteq> []" by (simp add: strip_where_def)
  then have "\<not> P (hd ?e)" by (rule hd_dropWhile)
  then have l: "\<not> P (last (strip_where P s))"
    using e by (simp add: strip_where_def last_rev)
  have d: "?d \<noteq> []"
    using e by (metis dropWhile.simps(1) rev.simps(1))
  then have hd: "\<not> P (hd ?d)" by (rule hd_dropWhile)
  have "rev ?d = takeWhile P (rev ?d) @ ?e" by simp
  then have "?d = rev ?e @ rev (takeWhile P (rev ?d))"
    by (metis rev_append rev_rev_ident)
  then have "hd ?d = hd (rev ?e)" using e by (metis hd_append2 rev_is_Nil_conv)
  with hd have "\<not> P (hd (strip_where P s))" by (simp add: strip_where_def)
  with l show ?thesis by simp
qed

lemma foldl_add_line_other:
  "\<forall>l\<in>set ls. CHR '':'' \<in> set l \<longrightarrow> line_key l \<noteq> k \<Longrightarrow> foldl add_line m ls k = m k"
  by (induction ls arbitrary: m) (auto simp: add_line_def)

lemma foldl_add_line_last:
  assumes "CHR '':'' \<in> set l"
    and "\<forall>l'\<in>set after. CHR '':'' \<in> set l' \<longrightarrow> line_key l' \<noteq> line_key l"
  shows "foldl add_line m (before @ l # after) (line_key l) = Some (line_value l)"
proof -
  have "foldl add_line m (before @ l # after) (line_key l)
          = add_line (foldl add_line m before) l (line_key l)"
    using assms(2) by (simp add: foldl_add_line_other)
  also have "\<dots> = Some (line_value l)"
    using assms(1) by (simp add: add_line_def)
  finally show ?thesis .
qed

lemma takeWhile_colon:
  assumes "CHR '':'' \<notin> set k"
  shows "takeWhile (\<lambda>c. c \<noteq> CHR '':'') (k @ CHR '':'' # v) = k"
proof -
  have "\<And>x. x \<in> set k \<Longrightarrow> x \<noteq> CHR '':''" using assms by auto
  then have "takeWhile (\<lambda>c. c \<noteq> CHR '':'') (k @ CHR '':'' # v)
               = k @ takeWhile (\<lambda>c. c \<noteq> CHR '':'') (CHR '':'' # v)"
    by (rule takeWhile_append2)
  then show ?thesis by simp
qed

lemma dropWhile_colon:
  assumes "CHR '':'' \<notin> set k"
  shows "dropWhile (\<lambda>c. c \<noteq> CHR '':'') (k @ CHR '':'' # v) = CHR '':'' # v"
proof -
  have "\<And>x. x \<in> set k \<Longrightarrow> x \<noteq> CHR '':''" using assms by auto
  then have "dropWhile (\<lambda>c. c \<noteq> CHR '':'') (k @ CHR '':'' # v)
               = dropWhile (\<lambda>c. c \<noteq> CHR '':'') (CHR '':'' # v)"
    by (rule dropWhile_append2)
  then show ?thesis by simp
qed

lemma line_key_cut: "CHR '':'' \<notin> set k \<Longrightarrow> line_key (k @ CHR '':'' # v) = py_strip k"
  by (simp add: line_key_def takeWhile_colon)

lemma line_value_cut:
  "CHR '':'' \<notin> set k \<Longrightarrow>
   line_value (k @ CHR '':'' # v) = py_strip_chars [squote] (py_strip_chars [dquote] (py_strip v))"
  by (simp add: line_value_def dropWhile_colon)


lemma replicate_all: "\<forall>c\<in>set (replicate n x). c = x"
  by simp

text \<open>
  C3, as amended. In a frontmatter block, the last line with a given key decides its
  value: the key is the text before the first colon, stripped of white space; the value
  is the text after it, stripped of white space, then of every leading and trailing
  double quote, then of every leading and trailing single quote. So any number of
  quote layers goes, matching or not: a value written as white space, \<open>n\<close> double quotes,
  \<open>m\<close> single quotes, a text \<open>s\<close> that neither starts nor ends with a quote or white
  space, \<open>m'\<close> single quotes, \<open>n'\<close> double quotes and white space parses to \<open>s\<close>.
\<close>

theorem frontmatter_line_strips_all_quotes:
  assumes block: "match_frontmatter content = Some (frontmatter_text, body)"
    and lines: "py_split newline frontmatter_text = before @ (k @ CHR '':'' # v) # after"
    and k: "CHR '':'' \<notin> set k"
    and later: "\<forall>l\<in>set after. CHR '':'' \<in> set l \<longrightarrow> line_key l \<noteq> py_strip k"
  shows "fst (parse_frontmatter content) (py_strip k)
           = Some (py_strip_chars [squote] (py_strip_chars [dquote] (py_strip v)))
       \<and> (v = ws1 @ replicate n dquote @ replicate m squote @ s
               @ replicate m' squote @ replicate n' dquote @ ws2
            \<and> (\<forall>c\<in>set (ws1 @ ws2). is_space c)
            \<and> s \<noteq> [] \<and> \<not> is_space (hd s) \<and> \<not> is_space (last s)
            \<and> hd s \<notin> {dquote, squote} \<and> last s \<notin> {dquote, squote}
          \<longrightarrow> fst (parse_frontmatter content) (py_strip k) = Some s)"
proof (intro conjI impI)
  let ?l = "k @ CHR '':'' # v"
  have key: "line_key ?l = py_strip k" using k by (rule line_key_cut)
  have val: "line_value ?l = py_strip_chars [squote] (py_strip_chars [dquote] (py_strip v))"
    using k by (rule line_value_cut)
  have "foldl add_line Map.empty (before @ ?l # after) (line_key ?l) = Some (line_value ?l)"
    using later by (intro foldl_add_line_last) (auto simp: key)
  then show 1: "fst (parse_frontmatter content) (py_strip k)
           = Some (py_strip_chars [squote] (py_strip_chars [dquote] (py_strip v)))"
    using block lines by (simp add: parse_frontmatter_def key val)
  assume shape: "v = ws1 @ replicate n dquote @ replicate m squote @ s
               @ replicate m' squote @ replicate n' dquote @ ws2
            \<and> (\<forall>c\<in>set (ws1 @ ws2). is_space c)
            \<and> s \<noteq> [] \<and> \<not> is_space (hd s) \<and> \<not> is_space (last s)
            \<and> hd s \<notin> {dquote, squote} \<and> last s \<notin> {dquote, squote}"
  then have v: "v = ws1 @ replicate n dquote @ replicate m squote @ s
               @ replicate m' squote @ replicate n' dquote @ ws2"
    and ws: "\<forall>c\<in>set (ws1 @ ws2). is_space c"
    and s: "s \<noteq> []" "\<not> is_space (hd s)" "\<not> is_space (last s)"
       "hd s \<notin> {dquote, squote}" "last s \<notin> {dquote, squote}"
    by blast+
  have nsp: "\<not> is_space dquote" "\<not> is_space squote" "dquote \<noteq> squote"
    by (simp_all add: is_space_def dquote_def squote_def)
  let ?q = "replicate m squote @ s @ replicate m' squote"
  let ?d = "replicate n dquote @ ?q @ replicate n' dquote"
  have q_ne: "?q \<noteq> []" using s by simp
  have hd_q: "hd ?q = (if m = 0 then hd s else squote)"
    using s by (cases m) (auto simp: hd_append)
  have last_q: "last ?q = (if m' = 0 then last s else squote)"
    using s by (cases m') auto
  have hd_d: "hd ?d = (if n = 0 then hd ?q else dquote)"
    using q_ne by (cases n) (auto simp: hd_append)
  have last_d: "last ?d = (if n' = 0 then last ?q else dquote)"
    using q_ne by (cases n') auto
  have "py_strip v = ?d"
    unfolding py_strip_def v
    using strip_where_middle [of ws1 is_space ws2 ?d] ws s nsp hd_q last_q hd_d last_d q_ne
    by (auto simp del: replicate_eq_replicate)
  moreover have "py_strip_chars [dquote] ?d = ?q"
    unfolding py_strip_chars_def
    using strip_where_middle [of "replicate n dquote" "\<lambda>c. c \<in> set [dquote]" "replicate n' dquote" ?q]
      s nsp hd_q last_q q_ne
    by auto
  moreover have "py_strip_chars [squote] ?q = s"
    unfolding py_strip_chars_def
    using strip_where_middle [of "replicate m squote" "\<lambda>c. c \<in> set [squote]" "replicate m' squote" s]
      s by auto
  ultimately show "fst (parse_frontmatter content) (py_strip k) = Some s"
    using 1 by simp
qed

text \<open>The witness is the block \<^verbatim>\<open>title: "Hello"\<close> of the specification.\<close>

theorem frontmatter_line_strips_all_quotes_witness:
  "match_frontmatter (''---'' @ newline # ''title: '' @ quoted ''Hello'' @ newline # ''---'' @ [newline])
     = Some (''title: '' @ quoted ''Hello'', [])
   \<and> py_split newline (''title: '' @ quoted ''Hello'') = [] @ (''title'' @ CHR '':'' # '' '' @ quoted ''Hello'') # []
   \<and> CHR '':'' \<notin> set ''title''
   \<and> '' '' @ quoted ''Hello'' = '' '' @ replicate 1 dquote @ replicate 0 squote @ ''Hello''
        @ replicate 0 squote @ replicate 1 dquote @ []
   \<and> fst (parse_frontmatter
        (''---'' @ newline # ''title: '' @ quoted ''Hello'' @ newline # ''---'' @ [newline])) ''title''
       = Some ''Hello''"
proof -
  let ?c = "''---'' @ newline # ''title: '' @ quoted ''Hello'' @ newline # ''---'' @ [newline]"
  have block: "match_frontmatter ?c = Some (''title: '' @ quoted ''Hello'', [])"
    by code_simp
  have lines: "py_split newline (''title: '' @ quoted ''Hello'')
                 = [] @ (''title'' @ CHR '':'' # '' '' @ quoted ''Hello'') # []"
    by (simp add: quoted_def dquote_def newline_def)
  have k: "CHR '':'' \<notin> set ''title''" by simp
  have later: "\<forall>l\<in>set []. CHR '':'' \<in> set l \<longrightarrow> line_key l \<noteq> py_strip ''title''" by simp
  have key: "py_strip ''title'' = ''title''"
    by (simp add: py_strip_def strip_where_def is_space_def)
  have shape: "'' '' @ quoted ''Hello'' = '' '' @ replicate 1 dquote @ replicate 0 squote @ ''Hello''
        @ replicate 0 squote @ replicate 1 dquote @ []"
    by (simp add: quoted_def)
  have rest: "(\<forall>c\<in>set ('' '' @ []). is_space c) \<and> ''Hello'' \<noteq> []
      \<and> \<not> is_space (hd ''Hello'') \<and> \<not> is_space (last ''Hello'')
      \<and> hd ''Hello'' \<notin> {dquote, squote} \<and> last ''Hello'' \<notin> {dquote, squote}"
    by (simp add: is_space_def dquote_def squote_def)
  from frontmatter_line_strips_all_quotes [OF block lines k later,
      of "'' ''" 1 0 "''Hello''" 0 1 "[]"] shape rest
  have "fst (parse_frontmatter ?c) (py_strip ''title'') = Some ''Hello''" by blast
  with block lines k shape show ?thesis by (simp only: key) blast
qed

text \<open>
  C3 as stated fails: of two layers of double quotes around \<open>Hello\<close> none is kept, where
  the claim keeps the inner one.
\<close>

theorem frontmatter_two_quote_layers:
  "fst (parse_frontmatter
      (''---'' @ newline # ''title: '' @ quoted (quoted ''Hello'') @ newline # ''---'' @ [newline]))
     ''title'' = Some ''Hello''
   \<and> ''Hello'' \<noteq> quoted ''Hello''"
  by code_simp
subsection \<open>The date of a post\<close>

















subsection \<open>The post renderer\<close>

lemma strip_prefix_prefix: "strip_prefix p s \<noteq> None \<longleftrightarrow> prefix p s"
  by (auto simp: strip_prefix_iff prefix_def)









subsection \<open>The listing updater\<close>

lemma strip_prefix_None: "strip_prefix p s = None \<longleftrightarrow> \<not> prefix p s"
  using strip_prefix_prefix [of p s] by auto

lemma no_early_prefix:
  assumes "\<not> sublist p (m @ butlast p)" and "m \<noteq> []" and "p \<noteq> []"
  shows "\<not> prefix p (m @ p @ r)"
proof
  assume "prefix p (m @ p @ r)"
  then have "p = take (length p) (m @ p @ r)" by (metis append_eq_conv_conj prefix_def)
  also have "\<dots> = take (length p) (m @ butlast p)"
    using assms(2,3) by (cases m) (auto simp: take_Cons' butlast_conv_take)
  finally have "prefix p (m @ butlast p)" by (metis take_is_prefix)
  then have "sublist p (m @ butlast p)" by (rule prefix_imp_sublist)
  with assms(1) show False by simp
qed

lemma close_tag_nonempty: "close_tag \<noteq> []" by (simp add: close_tag_def)
lemma open_tag_nonempty: "open_tag \<noteq> []" by (simp add: open_tag_def)

lemma find_close_nearest:
  "\<not> sublist close_tag (m @ butlast close_tag) \<Longrightarrow> find_close (m @ close_tag @ rest) = Some m"
proof (induction m)
  case Nil
  have "strip_prefix close_tag (close_tag @ rest) = Some rest" by (rule strip_prefix_append)
  then show ?case by (cases "close_tag @ rest") (auto simp: close_tag_def)
next
  case (Cons x m)
  have "\<not> prefix close_tag ((x # m) @ close_tag @ rest)"
    using Cons.prems close_tag_nonempty by (intro no_early_prefix) auto
  then have n: "strip_prefix close_tag (x # m @ close_tag @ rest) = None"
    by (simp add: strip_prefix_None)
  from Cons.prems have "\<not> sublist close_tag (m @ butlast close_tag)"
    by (simp add: sublist_Cons_right)
  with Cons.IH n show ?case by simp
qed

lemma find_close_sound: "find_close s = Some m \<Longrightarrow> \<exists>rest. s = m @ close_tag @ rest"
proof (induction s arbitrary: m)
  case Nil
  then show ?case by simp
next
  case (Cons c cs)
  show ?case
  proof (cases "strip_prefix close_tag (c # cs)")
    case (Some r)
    with Cons.prems have "m = []" by simp
    with Some show ?thesis by (simp add: strip_prefix_iff)
  next
    case None
    with Cons.prems obtain m' where m': "find_close cs = Some m'" "m = c # m'"
      by (auto split: option.splits)
    from Cons.IH [OF m'(1)] m'(2) show ?thesis by auto
  qed
qed

lemma region_match_sound:
  "region_match s = Some m \<Longrightarrow> \<exists>mid rest. m = open_tag @ mid @ close_tag \<and> s = m @ rest"
  by (auto simp: region_match_def strip_prefix_iff split: option.splits dest!: find_close_sound)

lemma region_match_nearest:
  assumes "\<not> sublist close_tag (mid @ butlast close_tag)"
  shows "region_match (open_tag @ mid @ close_tag @ rest) = Some (open_tag @ mid @ close_tag)"
  using find_close_nearest [OF assms] by (simp add: region_match_def strip_prefix_append)

lemma sub_regions_first:
  assumes "\<not> sublist open_tag (pre @ butlast open_tag)"
    and "\<not> sublist close_tag (mid @ butlast close_tag)"
  shows "sub_regions f (pre @ open_tag @ mid @ close_tag @ rest)
           = pre @ f (open_tag @ mid @ close_tag) @ sub_regions f rest"
  using assms(1)
proof (induction pre)
  case Nil
  let ?m = "open_tag @ mid @ close_tag"
  obtain c cs where s: "?m @ rest = c # cs" using open_tag_nonempty by (cases "?m @ rest") auto
  then have "cs = tl (?m @ rest)" by simp
  then have "drop (length ?m - 1) cs = rest"
    using open_tag_nonempty by (simp add: drop_tl [symmetric] del: append_assoc) 
  moreover have "region_match (c # cs) = Some ?m"
    using region_match_nearest [OF assms(2), of rest] s by simp
  ultimately have "sub_regions f (c # cs) = f ?m @ sub_regions f rest" by simp
  with s show ?case by simp
next
  case (Cons x pre)
  have "\<not> prefix open_tag ((x # pre) @ open_tag @ mid @ close_tag @ rest)"
    using Cons.prems open_tag_nonempty by (intro no_early_prefix) auto
  then have "strip_prefix open_tag (x # pre @ open_tag @ mid @ close_tag @ rest) = None"
    by (simp add: strip_prefix_None)
  then have "region_match (x # pre @ open_tag @ mid @ close_tag @ rest) = None"
    by (simp add: region_match_def)
  moreover from Cons.prems have "\<not> sublist open_tag (pre @ butlast open_tag)"
    by (simp add: sublist_Cons_right)
  ultimately show ?case using Cons.IH by simp
qed

lemma sub_regions_unchanged:
  "\<not> sublist open_tag s \<or> \<not> sublist close_tag s \<Longrightarrow> sub_regions f s = s"
proof (induction s)
  case Nil
  then show ?case by simp
next
  case (Cons c cs)
  have "region_match (c # cs) = None"
  proof (cases "region_match (c # cs)")
    case (Some m)
    then obtain mid rest where e: "c # cs = open_tag @ mid @ close_tag @ rest"
      using region_match_sound by fastforce
    have "sublist open_tag (open_tag @ mid @ close_tag @ rest)"
      by (rule sublist_append_rightI)
    moreover have "sublist close_tag ((open_tag @ mid) @ close_tag @ rest)"
      by (rule sublist_appendI)
    ultimately have "sublist open_tag (c # cs)" "sublist close_tag (c # cs)"
      unfolding e by simp_all
    with Cons.prems show ?thesis by simp
  qed simp
  moreover from Cons.prems have "\<not> sublist open_tag cs \<or> \<not> sublist close_tag cs"
    by (auto simp: sublist_Cons_right)
  ultimately show ?case using Cons.IH by simp
qed

lemma tokenize_plain: "backslash \<notin> set s \<Longrightarrow> tokenize s = Inr (map Plain s)"
  by (induction s rule: tokenize.induct) (auto simp: cons_ok_def)

lemma parse_tokens_plain: "parse_tokens (map Plain s) = Inr (map Chr s)"
  by (induction s) (auto simp: cons_ok_def)

lemma expand_plain: "expand (map Chr s) m = s"
  by (induction s) (auto simp: expand_def)

lemma expand_plain_fun: "expand (map Chr s) = (\<lambda>m. s)"
  by (rule ext) (rule expand_plain)

lemma re_sub_literal:
  "backslash \<notin> set repl \<Longrightarrow> re_sub_blog_list repl s = Inr (sub_regions (\<lambda>m. repl) s)"
  by (simp add: re_sub_blog_list_def parse_template_def tokenize_plain parse_tokens_plain
      expand_plain_fun)

lemma set_sorted_posts: "set (sorted_posts posts) = set posts"
  by (simp add: sorted_posts_def)

lemma backslash_quoted: "backslash \<in> set (quoted s) \<longleftrightarrow> backslash \<in> set s"
  unfolding backslash_def by (auto simp: quoted_def dquote_def)

lemma backslash_post_fragment:
  "backslash \<in> set (post_fragment p) \<longleftrightarrow>
   backslash \<in> set (post_slug p @ post_title p @ post_date p @ post_description p)"
  unfolding backslash_def
  by (auto simp: post_fragment_def Let_def backslash_quoted [unfolded backslash_def] newline_def)

lemma backslash_blog_list_html:
  "backslash \<in> set (blog_list_html posts) \<longleftrightarrow>
   (\<exists>p\<in>set posts. backslash \<in> set (post_slug p @ post_title p @ post_date p @ post_description p))"
  unfolding backslash_def
  by (auto simp: blog_list_html_def set_sorted_posts
      backslash_post_fragment [unfolded backslash_def])

lemma backslash_new_region: "backslash \<in> set (new_region html) \<longleftrightarrow> backslash \<in> set html"
  unfolding backslash_def
  by (auto simp: new_region_def open_tag_def backslash_quoted [unfolded backslash_def]
      newline_def)

lemma re_sub_posts_literal:
  assumes "\<forall>p\<in>set posts. backslash \<notin> set (post_slug p @ post_title p @ post_date p @ post_description p)"
  shows "re_sub_blog_list (new_region (blog_list_html posts)) t
           = Inr (sub_regions (\<lambda>m. new_region (blog_list_html posts)) t)"
proof -
  have "backslash \<notin> set (new_region (blog_list_html posts))"
    using assms by (simp add: backslash_new_region backslash_blog_list_html)
  then show ?thesis by (rule re_sub_literal)
qed

lemma update_blog_listing_literal:
  assumes "\<forall>p\<in>set posts. backslash \<notin> set (post_slug p @ post_title p @ post_date p @ post_description p)"
    and "out_dir w BLOG_LISTING_FILE = Some (File s)"
  shows "update_blog_listing posts w
           = Inr (w\<lparr>out_dir := (out_dir w)(BLOG_LISTING_FILE \<mapsto>
                    File (sub_regions (\<lambda>m. new_region (blog_list_html posts)) s))\<rparr>)"
  using assms(2) by (simp add: update_blog_listing_def read_out_def re_sub_posts_literal [OF assms(1)])

lemma no_tag_in_short:
  "\<not> sublist open_tag ''<h1>''" "\<not> sublist open_tag ''z''" "\<not> sublist open_tag ''<p>none</p>''"
  "\<not> sublist open_tag ''b</div>c''"
  "\<not> sublist open_tag (''<h1>'' @ butlast open_tag)"
  "\<not> sublist open_tag (''x'' @ butlast open_tag)"
  "\<not> sublist open_tag ([] @ butlast open_tag)"
  "\<not> sublist close_tag (''old'' @ butlast close_tag)"
  "\<not> sublist close_tag (''y'' @ butlast close_tag)"
  "\<not> sublist close_tag (''a'' @ butlast close_tag)"
  by (simp_all add: open_tag_def close_tag_def quoted_def dquote_def sublist_Cons_right)

text \<open>
  C1, as amended. When no field of a post holds a backslash, the replacement is the
  literal text \<open>new_region (blog_list_html posts)\<close>, and the updater replaces every region
  that runs from an \<open>open_tag\<close> to the nearest \<open>close_tag\<close> behind it: the first such
  region becomes the new region, the text before it is kept, and the text behind it is
  rewritten by the same substitution. A document with no \<open>open_tag\<close> or no \<open>close_tag\<close> is
  written back as it was.
\<close>

theorem update_blog_listing_every_nearest_region:
  assumes literal: "\<forall>p\<in>set posts.
      backslash \<notin> set (post_slug p @ post_title p @ post_date p @ post_description p)"
  shows "(out_dir w BLOG_LISTING_FILE = Some (File (pre @ open_tag @ mid @ close_tag @ rest))
          \<and> \<not> sublist open_tag (pre @ butlast open_tag)
          \<and> \<not> sublist close_tag (mid @ butlast close_tag)
          \<longrightarrow> (\<exists>rest'. re_sub_blog_list (new_region (blog_list_html posts)) rest = Inr rest'
                 \<and> update_blog_listing posts w
                     = Inr (w\<lparr>out_dir := (out_dir w)(BLOG_LISTING_FILE \<mapsto>
                              File (pre @ new_region (blog_list_html posts) @ rest'))\<rparr>)))
       \<and> (out_dir w BLOG_LISTING_FILE = Some (File s)
          \<and> (\<not> sublist open_tag s \<or> \<not> sublist close_tag s)
          \<longrightarrow> update_blog_listing posts w
                = Inr (w\<lparr>out_dir := (out_dir w)(BLOG_LISTING_FILE \<mapsto> File s)\<rparr>))"
proof (intro conjI impI)
  let ?R = "new_region (blog_list_html posts)"
  assume a: "out_dir w BLOG_LISTING_FILE = Some (File (pre @ open_tag @ mid @ close_tag @ rest))
          \<and> \<not> sublist open_tag (pre @ butlast open_tag)
          \<and> \<not> sublist close_tag (mid @ butlast close_tag)"
  then have sub: "sub_regions (\<lambda>m. ?R) (pre @ open_tag @ mid @ close_tag @ rest)
           = pre @ ?R @ sub_regions (\<lambda>m. ?R) rest"
    by (simp add: sub_regions_first)
  have "re_sub_blog_list ?R rest = Inr (sub_regions (\<lambda>m. ?R) rest)"
    using literal by (rule re_sub_posts_literal)
  moreover have "update_blog_listing posts w
      = Inr (w\<lparr>out_dir := (out_dir w)(BLOG_LISTING_FILE \<mapsto>
                              File (pre @ ?R @ sub_regions (\<lambda>m. ?R) rest))\<rparr>)"
    using update_blog_listing_literal [OF literal, of w] a sub by simp
  ultimately show "\<exists>rest'. re_sub_blog_list ?R rest = Inr rest'
                 \<and> update_blog_listing posts w
                     = Inr (w\<lparr>out_dir := (out_dir w)(BLOG_LISTING_FILE \<mapsto>
                              File (pre @ ?R @ rest'))\<rparr>)"
    by blast
next
  let ?R = "new_region (blog_list_html posts)"
  assume a: "out_dir w BLOG_LISTING_FILE = Some (File s)
          \<and> (\<not> sublist open_tag s \<or> \<not> sublist close_tag s)"
  then have "sub_regions (\<lambda>m. ?R) s = s" by (simp add: sub_regions_unchanged)
  then show "update_blog_listing posts w
                = Inr (w\<lparr>out_dir := (out_dir w)(BLOG_LISTING_FILE \<mapsto> File s)\<rparr>)"
    using update_blog_listing_literal [OF literal, of w s] a by simp
qed

text \<open>The witness is a document with two regions, and one with none.\<close>

theorem update_blog_listing_every_nearest_region_witness:
  "backslash \<notin> set (''a'' @ ''A'' @ ''June 01, 2024'' @ ''d'')
   \<and> \<not> sublist open_tag (''<h1>'' @ butlast open_tag)
   \<and> \<not> sublist close_tag (''old'' @ butlast close_tag)
   \<and> update_blog_listing
        [\<lparr>post_slug = ''a'', post_title = ''A'', post_date = ''June 01, 2024'',
          post_description = ''d''\<rparr>]
        \<lparr>src_dir = [],
          out_dir = [BLOG_LISTING_FILE \<mapsto>
            File (''<h1>'' @ open_tag @ ''old'' @ close_tag @ ''x'' @ open_tag @ ''y'' @ close_tag @ ''z'')],
          cwd_index = Missing, stdout = []\<rparr>
      = Inr \<lparr>src_dir = [],
          out_dir = [BLOG_LISTING_FILE \<mapsto>
            File (''<h1>''
              @ new_region (blog_list_html [\<lparr>post_slug = ''a'', post_title = ''A'',
                   post_date = ''June 01, 2024'', post_description = ''d''\<rparr>])
              @ ''x''
              @ new_region (blog_list_html [\<lparr>post_slug = ''a'', post_title = ''A'',
                   post_date = ''June 01, 2024'', post_description = ''d''\<rparr>])
              @ ''z'')],
          cwd_index = Missing, stdout = []\<rparr>
   \<and> \<not> sublist open_tag ''<p>none</p>''
   \<and> update_blog_listing
        [\<lparr>post_slug = ''a'', post_title = ''A'', post_date = ''June 01, 2024'',
          post_description = ''d''\<rparr>]
        \<lparr>src_dir = [], out_dir = [BLOG_LISTING_FILE \<mapsto> File ''<p>none</p>''],
          cwd_index = Missing, stdout = []\<rparr>
      = Inr \<lparr>src_dir = [], out_dir = [BLOG_LISTING_FILE \<mapsto> File ''<p>none</p>''],
          cwd_index = Missing, stdout = []\<rparr>"
proof -
  let ?P = "[\<lparr>post_slug = ''a'', post_title = ''A'', post_date = ''June 01, 2024'',
          post_description = ''d''\<rparr>]"
  let ?R = "new_region (blog_list_html ?P)"
  let ?rest = "''x'' @ open_tag @ ''y'' @ close_tag @ ''z''"
  let ?W = "\<lparr>src_dir = [],
          out_dir = [BLOG_LISTING_FILE \<mapsto> File (''<h1>'' @ open_tag @ ''old'' @ close_tag @ ?rest)],
          cwd_index = Missing, stdout = []\<rparr>"
  let ?V = "\<lparr>src_dir = [], out_dir = [BLOG_LISTING_FILE \<mapsto> File ''<p>none</p>''],
          cwd_index = Missing, stdout = []\<rparr>"
  have lit: "\<forall>p\<in>set ?P.
      backslash \<notin> set (post_slug p @ post_title p @ post_date p @ post_description p)"
    by (simp add: backslash_def)
  have "sub_regions (\<lambda>m. ?R) ?rest = ''x'' @ ?R @ sub_regions (\<lambda>m. ?R) ''z''"
    using no_tag_in_short by (intro sub_regions_first) 
  moreover have "sub_regions (\<lambda>m. ?R) ''z'' = ''z''"
    using no_tag_in_short by (intro sub_regions_unchanged) simp
  ultimately have "sub_regions (\<lambda>m. ?R) ?rest = ''x'' @ ?R @ ''z''"
    by (simp only:)
  then have rest: "re_sub_blog_list ?R ?rest = Inr (''x'' @ ?R @ ''z'')"
    by (simp only: re_sub_posts_literal [OF lit])
  have 1: "out_dir ?W BLOG_LISTING_FILE = Some (File (''<h1>'' @ open_tag @ ''old'' @ close_tag @ ?rest))"
    by simp
  have 2: "out_dir ?V BLOG_LISTING_FILE = Some (File ''<p>none</p>'')"
    by simp
  from update_blog_listing_every_nearest_region
      [OF lit, where w = ?W and pre = "''<h1>''" and mid = "''old''" and rest = ?rest]
    1 no_tag_in_short
  have a: "\<exists>rest'. re_sub_blog_list ?R ?rest = Inr rest'
          \<and> update_blog_listing ?P ?W
               = Inr (?W\<lparr>out_dir := (out_dir ?W)(BLOG_LISTING_FILE \<mapsto> File (''<h1>'' @ ?R @ rest'))\<rparr>)"
    by blast
  from update_blog_listing_every_nearest_region
      [OF lit, where w = ?V and s = "''<p>none</p>''"] 2 no_tag_in_short
  have b: "update_blog_listing ?P ?V
               = Inr (?V\<lparr>out_dir := (out_dir ?V)(BLOG_LISTING_FILE \<mapsto> File ''<p>none</p>'')\<rparr>)"
    by blast
  from a rest have "update_blog_listing ?P ?W
               = Inr (?W\<lparr>out_dir := (out_dir ?W)(BLOG_LISTING_FILE \<mapsto> File (''<h1>'' @ ?R @ ''x'' @ ?R @ ''z''))\<rparr>)"
    by (auto simp del: sub_regions.simps)
  with b lit no_tag_in_short show ?thesis by (simp del: sub_regions.simps)
qed

text \<open>
  C1 as stated fails: in a document with a second \<open>close_tag\<close> behind the region, the
  replaced span ends at the first one, and the text between the two stays in the
  document; the span of the claim would run to the last.
\<close>

theorem update_blog_listing_stops_at_first_close:
  "update_blog_listing
      [\<lparr>post_slug = ''a'', post_title = ''A'', post_date = ''June 01, 2024'',
          post_description = ''d''\<rparr>]
      \<lparr>src_dir = [], out_dir = [BLOG_LISTING_FILE \<mapsto> File (open_tag @ ''a</div>b</div>c'')],
        cwd_index = Missing, stdout = []\<rparr>
     = Inr \<lparr>src_dir = [],
         out_dir = [BLOG_LISTING_FILE \<mapsto> File (new_region (blog_list_html
      [\<lparr>post_slug = ''a'', post_title = ''A'', post_date = ''June 01, 2024'',
          post_description = ''d''\<rparr>]) @ ''b</div>c'')],
         cwd_index = Missing, stdout = []\<rparr>
   \<and> greedy_first_region (new_region (blog_list_html
      [\<lparr>post_slug = ''a'', post_title = ''A'', post_date = ''June 01, 2024'',
          post_description = ''d''\<rparr>])) (open_tag @ ''a</div>b</div>c'')
       = new_region (blog_list_html
      [\<lparr>post_slug = ''a'', post_title = ''A'', post_date = ''June 01, 2024'',
          post_description = ''d''\<rparr>]) @ ''c''
   \<and> new_region (blog_list_html
      [\<lparr>post_slug = ''a'', post_title = ''A'', post_date = ''June 01, 2024'',
          post_description = ''d''\<rparr>]) @ ''b</div>c'' \<noteq> new_region (blog_list_html
      [\<lparr>post_slug = ''a'', post_title = ''A'', post_date = ''June 01, 2024'',
          post_description = ''d''\<rparr>]) @ ''c''"
proof (intro conjI)
  let ?R = "new_region (blog_list_html
      [\<lparr>post_slug = ''a'', post_title = ''A'', post_date = ''June 01, 2024'',
          post_description = ''d''\<rparr>])"
  let ?W = "\<lparr>src_dir = [], out_dir = [BLOG_LISTING_FILE \<mapsto> File (open_tag @ ''a</div>b</div>c'')],
        cwd_index = Missing, stdout = []\<rparr>"
  have "sub_regions (\<lambda>m. ?R) ([] @ open_tag @ ''a'' @ close_tag @ ''b</div>c'')
          = [] @ ?R @ sub_regions (\<lambda>m. ?R) ''b</div>c''"
    using no_tag_in_short by (intro sub_regions_first)
  moreover have "sub_regions (\<lambda>m. ?R) ''b</div>c'' = ''b</div>c''"
    using no_tag_in_short by (intro sub_regions_unchanged) simp
  ultimately have "sub_regions (\<lambda>m. ?R) (open_tag @ ''a</div>b</div>c'') = ?R @ ''b</div>c''"
    by (simp add: close_tag_def del: sub_regions.simps)
  moreover have "update_blog_listing
      [\<lparr>post_slug = ''a'', post_title = ''A'', post_date = ''June 01, 2024'',
          post_description = ''d''\<rparr>] ?W
      = Inr (?W\<lparr>out_dir := (out_dir ?W)(BLOG_LISTING_FILE \<mapsto>
                    File (sub_regions (\<lambda>m. ?R) (open_tag @ ''a</div>b</div>c'')))\<rparr>)"
    by (rule update_blog_listing_literal) (simp_all add: backslash_def)
  ultimately show "update_blog_listing
      [\<lparr>post_slug = ''a'', post_title = ''A'', post_date = ''June 01, 2024'',
          post_description = ''d''\<rparr>] ?W
     = Inr \<lparr>src_dir = [],
         out_dir = [BLOG_LISTING_FILE \<mapsto> File (?R @ ''b</div>c'')],
         cwd_index = Missing, stdout = []\<rparr>"
    by (simp del: sub_regions.simps)
  show "greedy_first_region ?R (open_tag @ ''a</div>b</div>c'') = ?R @ ''c''"
    by code_simp
  show "?R @ ''b</div>c'' \<noteq> ?R @ ''c''" by simp
qed
subsection \<open>Backslashes in the replacement\<close>

text \<open>
  C10. The replacement of line 118 goes through the template syntax of \<open>re.sub\<close>. A title
  \<^verbatim>\<open>\1\<close> or \<^verbatim>\<open>\g<x>\<close> refers to a group the pattern does not have: the update raises, for
  every listing, and the build of a site with such a post ends with that error. A title
  with a doubled backslash is written with a single one, so the region that is
  inserted differs from the assembled fragment.
\<close>

theorem listing_update_interprets_backslashes:
  "re_sub_blog_list
     (new_region (blog_list_html
        [\<lparr>post_slug = ''a'', post_title = [backslash, CHR ''1''], post_date = ''May 1'',
          post_description = []\<rparr>])) listing
     = Inl ReError
   \<and> re_sub_blog_list
     (new_region (blog_list_html
        [\<lparr>post_slug = ''a'', post_title = backslash # ''g<x>'', post_date = ''May 1'',
          post_description = []\<rparr>])) listing
     = Inl ReError
   \<and> fst (main \<lparr>md_convert = id, today = ''May 1'', str_title = id\<rparr>
        \<lparr>src_dir = [(''a.md'', File (''---'' @ newline # ''title: '' @ [backslash, CHR ''1'']
                       @ newline # ''---'' @ newline # ''hi''))],
          out_dir = [TEMPLATE_FILE \<mapsto> File ''{{CONTENT}}'',
                     BLOG_LISTING_FILE \<mapsto> File (open_tag @ close_tag)],
          cwd_index = Missing, stdout = []\<rparr>)
     = Some ReError
   \<and> re_sub_blog_list
     (new_region (blog_list_html
        [\<lparr>post_slug = ''a'', post_title = ''x'' @ [backslash, backslash] @ ''y'',
          post_date = ''May 1'', post_description = []\<rparr>])) (open_tag @ close_tag)
     = Inr (new_region (blog_list_html
        [\<lparr>post_slug = ''a'', post_title = ''x'' @ [backslash] @ ''y'',
          post_date = ''May 1'', post_description = []\<rparr>]))
   \<and> new_region (blog_list_html
        [\<lparr>post_slug = ''a'', post_title = ''x'' @ [backslash] @ ''y'',
          post_date = ''May 1'', post_description = []\<rparr>])
     \<noteq> new_region (blog_list_html
        [\<lparr>post_slug = ''a'', post_title = ''x'' @ [backslash, backslash] @ ''y'',
          post_date = ''May 1'', post_description = []\<rparr>])"
proof (intro conjI)
  have 1: "parse_template
     (new_region (blog_list_html
        [\<lparr>post_slug = ''a'', post_title = [backslash, CHR ''1''], post_date = ''May 1'',
          post_description = []\<rparr>])) = Inl ReError"
    by code_simp
  then show "re_sub_blog_list
     (new_region (blog_list_html
        [\<lparr>post_slug = ''a'', post_title = [backslash, CHR ''1''], post_date = ''May 1'',
          post_description = []\<rparr>])) listing
     = Inl ReError"
    by (simp only: re_sub_blog_list_def sum.case)
  have 2: "parse_template
     (new_region (blog_list_html
        [\<lparr>post_slug = ''a'', post_title = backslash # ''g<x>'', post_date = ''May 1'',
          post_description = []\<rparr>])) = Inl ReError"
    by code_simp
  then show "re_sub_blog_list
     (new_region (blog_list_html
        [\<lparr>post_slug = ''a'', post_title = backslash # ''g<x>'', post_date = ''May 1'',
          post_description = []\<rparr>])) listing
     = Inl ReError"
    by (simp only: re_sub_blog_list_def sum.case)
  show "fst (main \<lparr>md_convert = id, today = ''May 1'', str_title = id\<rparr>
        \<lparr>src_dir = [(''a.md'', File (''---'' @ newline # ''title: '' @ [backslash, CHR ''1'']
                       @ newline # ''---'' @ newline # ''hi''))],
          out_dir = [TEMPLATE_FILE \<mapsto> File ''{{CONTENT}}'',
                     BLOG_LISTING_FILE \<mapsto> File (open_tag @ close_tag)],
          cwd_index = Missing, stdout = []\<rparr>)
     = Some ReError"
    by code_simp
  show "re_sub_blog_list
     (new_region (blog_list_html
        [\<lparr>post_slug = ''a'', post_title = ''x'' @ [backslash, backslash] @ ''y'',
          post_date = ''May 1'', post_description = []\<rparr>])) (open_tag @ close_tag)
     = Inr (new_region (blog_list_html
        [\<lparr>post_slug = ''a'', post_title = ''x'' @ [backslash] @ ''y'',
          post_date = ''May 1'', post_description = []\<rparr>]))"
    by code_simp
  show "new_region (blog_list_html
        [\<lparr>post_slug = ''a'', post_title = ''x'' @ [backslash] @ ''y'',
          post_date = ''May 1'', post_description = []\<rparr>])
     \<noteq> new_region (blog_list_html
        [\<lparr>post_slug = ''a'', post_title = ''x'' @ [backslash, backslash] @ ''y'',
          post_date = ''May 1'', post_description = []\<rparr>])"
    by code_simp
qed

subsection \<open>Building twice\<close>

text \<open>
  C2 on the small site. The first build writes the page and the region with the one
  post. The second build, on the files the first one left, writes the same page, but
  the region it replaces ends at the first \<open>close_tag\<close> inside the fragment of the first
  build, so the rest of that fragment and its closing line stay behind the new region:
  the listing grows with every build.
\<close>

theorem second_build_changes_listing:
  "build_outcome example_env one_post_world
     = (None, Some (Dir (Doc ''<h1>A</h1>hi'')),
        Some (File (new_region (post_fragment
            \<lparr>post_slug = ''a'', post_title = ''A'', post_date = ''January 01, 2024'',
              post_description = []\<rparr>))))
   \<and> build_outcome example_env (snd (main example_env one_post_world))
     = (None, Some (Dir (Doc ''<h1>A</h1>hi'')),
        Some (File (new_region (post_fragment
            \<lparr>post_slug = ''a'', post_title = ''A'', post_date = ''January 01, 2024'',
              post_description = []\<rparr>)
          @ newline # ''            '' @ newline # ''          </div>'' @ [newline]
          @ newline # ''          </div>'')))
   \<and> new_region (post_fragment
            \<lparr>post_slug = ''a'', post_title = ''A'', post_date = ''January 01, 2024'',
              post_description = []\<rparr>)
       \<noteq> new_region (post_fragment
            \<lparr>post_slug = ''a'', post_title = ''A'', post_date = ''January 01, 2024'',
              post_description = []\<rparr>)
          @ newline # ''            '' @ newline # ''          </div>'' @ [newline]
          @ newline # ''          </div>''"
proof (intro conjI)
  show "build_outcome example_env one_post_world
     = (None, Some (Dir (Doc ''<h1>A</h1>hi'')),
        Some (File (new_region (post_fragment
            \<lparr>post_slug = ''a'', post_title = ''A'', post_date = ''January 01, 2024'',
              post_description = []\<rparr>))))"
    by code_simp
  show "build_outcome example_env (snd (main example_env one_post_world))
     = (None, Some (Dir (Doc ''<h1>A</h1>hi'')),
        Some (File (new_region (post_fragment
            \<lparr>post_slug = ''a'', post_title = ''A'', post_date = ''January 01, 2024'',
              post_description = []\<rparr>)
          @ newline # ''            '' @ newline # ''          </div>'' @ [newline]
          @ newline # ''          </div>'')))"
    by code_simp
  show "new_region (post_fragment
            \<lparr>post_slug = ''a'', post_title = ''A'', post_date = ''January 01, 2024'',
              post_description = []\<rparr>)
       \<noteq> new_region (post_fragment
            \<lparr>post_slug = ''a'', post_title = ''A'', post_date = ''January 01, 2024'',
              post_description = []\<rparr>)
          @ newline # ''            '' @ newline # ''          </div>'' @ [newline]
          @ newline # ''          </div>''"
    by simp
qed
subsection \<open>A source directory without Markdown files\<close>

text \<open>
  C8. When \<open>blog_src/\<close> holds no name ending in \<open>.md\<close>, \<open>main\<close> returns normally after its
  two messages, and the files are what they were: the listing is neither read (a
  missing listing raises nothing) nor written.
\<close>

theorem main_without_sources:
  "glob_md w = [] \<Longrightarrow>
   main env w = (None, w\<lparr>stdout := stdout w @ [NoMarkdownFound, CreateHint]\<rparr>)
   \<and> out_dir (snd (main env w)) BLOG_LISTING_FILE = out_dir w BLOG_LISTING_FILE"
  by (simp add: main_def print_event_def)

theorem main_without_sources_witness:
  "glob_md \<lparr>src_dir = [(''notes.txt'', File ''x''), (''drafts'', Dir Missing)],
       out_dir = [TEMPLATE_FILE \<mapsto> File ''{{CONTENT}}'', BLOG_LISTING_FILE \<mapsto> File ''<p>old</p>''],
       cwd_index = Missing, stdout = []\<rparr> = []
   \<and> main example_env
       \<lparr>src_dir = [(''notes.txt'', File ''x''), (''drafts'', Dir Missing)],
         out_dir = [TEMPLATE_FILE \<mapsto> File ''{{CONTENT}}'', BLOG_LISTING_FILE \<mapsto> File ''<p>old</p>''],
         cwd_index = Missing, stdout = []\<rparr>
     = (None,
        \<lparr>src_dir = [(''notes.txt'', File ''x''), (''drafts'', Dir Missing)],
          out_dir = [TEMPLATE_FILE \<mapsto> File ''{{CONTENT}}'', BLOG_LISTING_FILE \<mapsto> File ''<p>old</p>''],
          cwd_index = Missing, stdout = [NoMarkdownFound, CreateHint]\<rparr>)"
proof -
  let ?w = "\<lparr>src_dir = [(''notes.txt'', File ''x''), (''drafts'', Dir Missing)],
       out_dir = [TEMPLATE_FILE \<mapsto> File ''{{CONTENT}}'', BLOG_LISTING_FILE \<mapsto> File ''<p>old</p>''],
       cwd_index = Missing, stdout = []\<rparr>"
  have g: "glob_md ?w = []" by (simp add: glob_md_def is_md_def)
  from main_without_sources [OF g, of example_env] g show ?thesis by simp
qed
subsection \<open>The order of the listing\<close>

lemma sorted_posts_descending: "sorted (rev (map post_date (sorted_posts posts)))"
  by (simp add: sorted_posts_def rev_map [symmetric])

lemma mset_sorted_posts: "mset (sorted_posts posts) = mset posts"
  by (simp add: sorted_posts_def)

lemma sorted_posts_stable:
  "filter (\<lambda>p. post_date p = d) (sorted_posts posts) = filter (\<lambda>p. post_date p = d) posts"
proof -
  have "filter (\<lambda>p. post_date p = d) (sort_key post_date (rev posts))
          = filter (\<lambda>p. post_date p = d) (rev posts)"
    by (rule sort_key_stable)
  then show ?thesis by (simp add: sorted_posts_def rev_filter [symmetric])
qed

lemma post_record_date:
  "fst (parse_frontmatter content) ''date'' = Some d \<Longrightarrow>
   post_date (post_record env slug content) = format_date d"
  by (simp add: post_record_def dict_get_def Let_def)

lemma src_dir_step:
  "mkdir_post_dir slug w = Inr w' \<Longrightarrow> src_dir w' = src_dir w"
  "write_page slug html w = Inr w' \<Longrightarrow> src_dir w' = src_dir w"
  by (auto simp: mkdir_post_dir_def write_page_def split: if_splits option.splits node.splits leaf.splits)

lemma read_src_print [simp]: "read_src (print_event e w) name = read_src w name"
  by (simp add: read_src_def print_event_def)

lemma read_src_cong: "src_dir w' = src_dir w \<Longrightarrow> read_src w' name = read_src w name"
  by (simp add: read_src_def)

lemma process_files_Cons_ok:
  assumes "process_files env (n # names) w posts = (None, w', posts')"
  obtains content html w2 w3 where
    "read_src w n = Inr content"
    "generate_blog_post env (print_event (Processing n) w) (fst (parse_frontmatter content))
       (markdown_to_html env (snd (parse_frontmatter content))) (stem n) TEMPLATE_FILE = Inr html"
    "mkdir_post_dir (stem n) (print_event (Processing n) w) = Inr w2"
    "write_page (stem n) html w2 = Inr w3"
    "process_files env names (print_event (Generated (stem n)) w3)
       (posts @ [post_record env (stem n) content]) = (None, w', posts')"
  using assms by (auto simp: Let_def split: sum.splits prod.splits)

lemma process_files_posts:
  "process_files env names w posts = (None, w', posts') \<Longrightarrow>
   src_dir w' = src_dir w
   \<and> posts' = posts @ map (\<lambda>n. post_record env (stem n) (projr (read_src w n))) names"
proof (induction names arbitrary: w posts)
  case Nil
  then show ?case by simp
next
  case (Cons n names)
  from Cons.prems obtain content html w2 w3 where
    c: "read_src w n = Inr content"
    and m: "mkdir_post_dir (stem n) (print_event (Processing n) w) = Inr w2"
    and wr: "write_page (stem n) html w2 = Inr w3"
    and rest: "process_files env names (print_event (Generated (stem n)) w3)
       (posts @ [post_record env (stem n) content]) = (None, w', posts')"
    by (rule process_files_Cons_ok)
  have s3: "src_dir (print_event (Generated (stem n)) w3) = src_dir w"
    using src_dir_step(1) [OF m] src_dir_step(2) [OF wr] by (simp add: print_event_def)
  from Cons.IH [OF rest] have
    "src_dir w' = src_dir (print_event (Generated (stem n)) w3)"
    "posts' = (posts @ [post_record env (stem n) content])
        @ map (\<lambda>n. post_record env (stem n)
            (projr (read_src (print_event (Generated (stem n)) w3) n))) names"
    by simp_all
  moreover have "\<And>k. read_src (print_event (Generated (stem n)) w3) k = read_src w k"
    using s3 by (rule read_src_cong)
  moreover from c have "projr (read_src w n) = content" by simp
  ultimately show ?case using s3 by simp
qed


lemma january_before_june: "''January 01, 2024'' < ''June 01, 2024''"
  by simp

lemma two_dates:
  "format_date ''2024-01-01'' = ''January 01, 2024''"
  "format_date ''2024-06-01'' = ''June 01, 2024''"
  by code_simp+

text \<open>
  C5. The posts are listed by their date as a string, downwards: the dates of the sorted
  list descend, the list is a rearrangement of the posts, posts of equal date keep their
  order, and the fragments are concatenated in that order. For a build of two sources
  whose frontmatter dates are \<open>2024-01-01\<close> and \<open>2024-06-01\<close>, in either order of
  enumeration, the fragment of the June post comes first: the dates have become
  \<open>January 01, 2024\<close> and \<open>June 01, 2024\<close>, and \<open>Ju\<close> is above \<open>Ja\<close>.
\<close>

theorem listing_sorted_by_date_descending:
  "sorted (rev (map post_date (sorted_posts posts)))
   \<and> mset (sorted_posts posts) = mset posts
   \<and> filter (\<lambda>p. post_date p = d) (sorted_posts posts) = filter (\<lambda>p. post_date p = d) posts
   \<and> (posts \<noteq> [] \<longrightarrow> blog_list_html posts = concat (map post_fragment (sorted_posts posts)))
   \<and> (read_src w jan_md = Inr jan \<and> read_src w jun_md = Inr jun
      \<and> fst (parse_frontmatter jan) ''date'' = Some ''2024-01-01''
      \<and> fst (parse_frontmatter jun) ''date'' = Some ''2024-06-01''
      \<and> (md_files = [jan_md, jun_md] \<or> md_files = [jun_md, jan_md])
      \<and> process_files env md_files w [] = (None, w', built)
      \<longrightarrow> blog_list_html built
            = post_fragment (post_record env (stem jun_md) jun)
              @ post_fragment (post_record env (stem jan_md) jan))"
proof (intro conjI impI)
  show "sorted (rev (map post_date (sorted_posts posts)))" by (rule sorted_posts_descending)
  show "mset (sorted_posts posts) = mset posts" by (rule mset_sorted_posts)
  show "filter (\<lambda>p. post_date p = d) (sorted_posts posts) = filter (\<lambda>p. post_date p = d) posts"
    by (rule sorted_posts_stable)
  show "blog_list_html posts = concat (map post_fragment (sorted_posts posts))" if "posts \<noteq> []"
    using that by (simp add: blog_list_html_def)
next
  assume a: "read_src w jan_md = Inr jan \<and> read_src w jun_md = Inr jun
      \<and> fst (parse_frontmatter jan) ''date'' = Some ''2024-01-01''
      \<and> fst (parse_frontmatter jun) ''date'' = Some ''2024-06-01''
      \<and> (md_files = [jan_md, jun_md] \<or> md_files = [jun_md, jan_md])
      \<and> process_files env md_files w [] = (None, w', built)"
  let ?jan = "post_record env (stem jan_md) jan"
  let ?jun = "post_record env (stem jun_md) jun"
  have dj: "post_date ?jan = ''January 01, 2024''" "post_date ?jun = ''June 01, 2024''"
    using a by (simp_all add: post_record_date two_dates)
  have built: "built = map (\<lambda>n. post_record env (stem n) (projr (read_src w n))) md_files"
    using a process_files_posts [of env md_files w "[]" w' built] by simp
  have "sorted_posts built = [?jun, ?jan]"
  proof -
    from a have "md_files = [jan_md, jun_md] \<or> md_files = [jun_md, jan_md]" by blast
    then show ?thesis
    proof
      assume "md_files = [jan_md, jun_md]"
      then have "built = [?jan, ?jun]" using built a by simp
      then show ?thesis using dj january_before_june by (simp add: sorted_posts_def)
    next
      assume "md_files = [jun_md, jan_md]"
      then have "built = [?jun, ?jan]" using built a by simp
      then show ?thesis using dj january_before_june by (simp add: sorted_posts_def)
    qed
  qed
  moreover have "built \<noteq> []" using built a by auto
  ultimately show "blog_list_html built = post_fragment ?jun @ post_fragment ?jan"
    by (simp add: blog_list_html_def)
qed

theorem listing_sorted_by_date_descending_witness:
  "read_src two_post_world ''winter.md''
     = Inr (''---'' @ newline # ''date: 2024-01-01'' @ newline # ''---'' @ newline # ''snow'')
   \<and> read_src two_post_world ''summer.md''
     = Inr (''---'' @ newline # ''date: 2024-06-01'' @ newline # ''---'' @ newline # ''sun'')
   \<and> fst (parse_frontmatter
         (''---'' @ newline # ''date: 2024-01-01'' @ newline # ''---'' @ newline # ''snow''))
       ''date'' = Some ''2024-01-01''
   \<and> fst (parse_frontmatter
         (''---'' @ newline # ''date: 2024-06-01'' @ newline # ''---'' @ newline # ''sun''))
       ''date'' = Some ''2024-06-01''
   \<and> glob_md two_post_world = [''winter.md'', ''summer.md'']
   \<and> fst (process_files example_env [''winter.md'', ''summer.md''] two_post_world []) = None
   \<and> blog_list_html
        (snd (snd (process_files example_env [''winter.md'', ''summer.md''] two_post_world [])))
     = post_fragment
         \<lparr>post_slug = ''summer'', post_title = ''summer'', post_date = ''June 01, 2024'',
           post_description = []\<rparr>
       @ post_fragment
         \<lparr>post_slug = ''winter'', post_title = ''winter'', post_date = ''January 01, 2024'',
           post_description = []\<rparr>"
proof -
  let ?jan = "''---'' @ newline # ''date: 2024-01-01'' @ newline # ''---'' @ newline # ''snow''"
  let ?jun = "''---'' @ newline # ''date: 2024-06-01'' @ newline # ''---'' @ newline # ''sun''"
  let ?run = "process_files example_env [''winter.md'', ''summer.md''] two_post_world []"
  have r1: "read_src two_post_world ''winter.md'' = Inr ?jan" by code_simp
  have r2: "read_src two_post_world ''summer.md'' = Inr ?jun" by code_simp
  have d1: "fst (parse_frontmatter ?jan) ''date'' = Some ''2024-01-01''" by code_simp
  have d2: "fst (parse_frontmatter ?jun) ''date'' = Some ''2024-06-01''" by code_simp
  have g: "glob_md two_post_world = [''winter.md'', ''summer.md'']" by code_simp
  have ok: "fst ?run = None" by code_simp
  then have run: "?run = (None, fst (snd ?run), snd (snd ?run))"
    by (metis prod.collapse)
  have p1: "post_record example_env (stem ''winter.md'') ?jan
      = \<lparr>post_slug = ''winter'', post_title = ''winter'', post_date = ''January 01, 2024'',
           post_description = []\<rparr>" by code_simp
  have p2: "post_record example_env (stem ''summer.md'') ?jun
      = \<lparr>post_slug = ''summer'', post_title = ''summer'', post_date = ''June 01, 2024'',
           post_description = []\<rparr>" by code_simp
  from listing_sorted_by_date_descending
    [where w = two_post_world and jan_md = "''winter.md''" and jun_md = "''summer.md''"
       and jan = ?jan and jun = ?jun and md_files = "[''winter.md'', ''summer.md'']"
       and env = example_env and w' = "fst (snd ?run)" and built = "snd (snd ?run)"]
    r1 r2 d1 d2 run
  have "blog_list_html (snd (snd ?run))
      = post_fragment (post_record example_env (stem ''summer.md'') ?jun)
        @ post_fragment (post_record example_env (stem ''winter.md'') ?jan)"
    by blast
  then show ?thesis using r1 r2 d1 d2 g ok unfolding p1 p2 by blast
qed
subsection \<open>A template or a listing that cannot be read\<close>

lemma read_out_print [simp]: "read_out (print_event e w) name = read_out w name"
  by (simp add: read_out_def print_event_def)

lemma out_dir_print [simp]: "out_dir (print_event e w) = out_dir w"
  by (simp add: print_event_def)

lemma process_files_append:
  "process_files env (xs @ ys) w posts =
     (case process_files env xs w posts of
        (None, w1, p1) \<Rightarrow> process_files env ys w1 p1
      | (Some e, w1, p1) \<Rightarrow> (Some e, w1, p1))"
  by (induction xs arbitrary: w posts) (auto simp: Let_def split: sum.splits prod.splits)

lemma step_out_dir:
  assumes "mkdir_post_dir s w1 = Inr w2" and "write_page s html w2 = Inr w3"
    and "s \<noteq> ''.''" "s \<noteq> ''..''"
  shows "out_dir w3 = (out_dir w1)(s \<mapsto> Dir (Doc html))"
  using assms
  by (auto simp: mkdir_post_dir_def write_page_def
      split: if_splits option.splits node.splits leaf.splits)

lemma step_keeps_dir:
  assumes "mkdir_post_dir s w1 = Inr w2" and "write_page s html w2 = Inr w3"
    and "out_dir w1 k = Some (Dir x)" and "s \<noteq> k"
  shows "out_dir w3 k = Some (Dir x)"
  using assms
  by (auto simp: mkdir_post_dir_def write_page_def
      split: if_splits option.splits node.splits leaf.splits)

lemma step_keeps_template:
  assumes "mkdir_post_dir s w1 = Inr w2" and "write_page s html w2 = Inr w3"
    and "out_dir w1 TEMPLATE_FILE = Some (File t)"
  shows "out_dir w3 TEMPLATE_FILE = Some (File t)"
  using assms
  by (auto simp: mkdir_post_dir_def write_page_def TEMPLATE_FILE_def
      split: if_splits option.splits node.splits leaf.splits)

lemma read_out_File: "read_out w name = Inr t \<longleftrightarrow> out_dir w name = Some (File t)"
  by (auto simp: read_out_def split: option.splits node.splits)

lemma process_files_keeps_dir:
  "process_files env names w posts = (None, w', posts') \<Longrightarrow>
   out_dir w k = Some (Dir x) \<Longrightarrow> k \<notin> stem ` set names \<Longrightarrow> out_dir w' k = Some (Dir x)"
proof (induction names arbitrary: w posts)
  case Nil
  then show ?case by simp
next
  case (Cons n names)
  from Cons.prems(1) obtain content html w2 w3 where
    m: "mkdir_post_dir (stem n) (print_event (Processing n) w) = Inr w2"
    and wr: "write_page (stem n) html w2 = Inr w3"
    and rest: "process_files env names (print_event (Generated (stem n)) w3)
       (posts @ [post_record env (stem n) content]) = (None, w', posts')"
    by (rule process_files_Cons_ok)
  have "out_dir w3 k = Some (Dir x)"
    using m wr Cons.prems(2,3) by (intro step_keeps_dir [OF m wr]) auto
  then have "out_dir (print_event (Generated (stem n)) w3) k = Some (Dir x)" by simp
  with Cons.IH [OF rest] Cons.prems(3) show ?case by simp
qed

lemma process_files_keeps_template:
  "process_files env names w posts = (None, w', posts') \<Longrightarrow>
   read_out w TEMPLATE_FILE = Inr t \<Longrightarrow> read_out w' TEMPLATE_FILE = Inr t"
proof (induction names arbitrary: w posts)
  case Nil
  then show ?case by simp
next
  case (Cons n names)
  from Cons.prems(1) obtain content html w2 w3 where
    m: "mkdir_post_dir (stem n) (print_event (Processing n) w) = Inr w2"
    and wr: "write_page (stem n) html w2 = Inr w3"
    and rest: "process_files env names (print_event (Generated (stem n)) w3)
       (posts @ [post_record env (stem n) content]) = (None, w', posts')"
    by (rule process_files_Cons_ok)
  have "out_dir w3 TEMPLATE_FILE = Some (File t)"
    using Cons.prems(2) by (intro step_keeps_template [OF m wr]) (simp add: read_out_File)
  then have "read_out (print_event (Generated (stem n)) w3) TEMPLATE_FILE = Inr t"
    by (simp add: read_out_File)
  with Cons.IH [OF rest] show ?case by simp
qed

lemma process_files_page:
  assumes run: "process_files env (before @ n # after) w posts = (None, w', posts')"
    and slug: "stem n \<noteq> ''.''" "stem n \<noteq> ''..''" "stem n \<notin> stem ` set after"
    and src: "read_src w n = Inr content"
    and tpl: "read_out w TEMPLATE_FILE = Inr template"
  shows "out_dir w' (stem n)
           = Some (Dir (Doc (fill_template env (fst (parse_frontmatter content))
               (markdown_to_html env (snd (parse_frontmatter content))) (stem n) template)))"
proof -
  obtain r wa pa where b: "process_files env before w posts = (r, wa, pa)"
    by (metis prod_cases3)
  with run have r: "r = None" and tail: "process_files env (n # after) wa pa = (None, w', posts')"
    by (auto simp: process_files_append split: option.splits)
  from b r have sa: "src_dir wa = src_dir w" using process_files_posts by blast
  from b r tpl have ta: "read_out wa TEMPLATE_FILE = Inr template"
    using process_files_keeps_template by blast
  from tail obtain content' html w2 w3 where
    c: "read_src wa n = Inr content'"
    and g: "generate_blog_post env (print_event (Processing n) wa) (fst (parse_frontmatter content'))
       (markdown_to_html env (snd (parse_frontmatter content'))) (stem n) TEMPLATE_FILE = Inr html"
    and m: "mkdir_post_dir (stem n) (print_event (Processing n) wa) = Inr w2"
    and wr: "write_page (stem n) html w2 = Inr w3"
    and rest: "process_files env after (print_event (Generated (stem n)) w3)
       (pa @ [post_record env (stem n) content']) = (None, w', posts')"
    by (rule process_files_Cons_ok)
  from c sa src have cc: "content' = content" by (simp add: read_src_def)
  from g ta have html: "html = fill_template env (fst (parse_frontmatter content))
               (markdown_to_html env (snd (parse_frontmatter content))) (stem n) template"
    by (simp add: generate_blog_post_def cc)
  have "out_dir w3 (stem n) = Some (Dir (Doc html))"
    using step_out_dir [OF m wr slug(1,2)] by simp
  then have "out_dir (print_event (Generated (stem n)) w3) (stem n) = Some (Dir (Doc html))"
    by simp
  from process_files_keeps_dir [OF rest this slug(3)] html show ?thesis by simp
qed

text \<open>
  C9. When the template cannot be read, \<open>main\<close> ends with that error at the first post,
  and the files are as they were. When the listing cannot be read after the loop,
  \<open>main\<close> ends with that error, and the files are those the loop left: nothing is
  undone, and the page of a source (the last one of its slug, the slug being an ordinary
  name) is in its directory, filled from the template. In both cases the error is the
  result of \<open>main\<close>; nothing is tried again.
\<close>

theorem unreadable_file_aborts:
  "(read_out w TEMPLATE_FILE = Inl e \<and> glob_md w = n # ns \<and> read_src w n = Inr content
      \<longrightarrow> main env w = (Some e, print_event (Processing n) w))
   \<and> (glob_md w = before @ n # after
      \<and> process_files env (glob_md w) w [] = (None, w_loop, posts)
      \<and> read_out w_loop BLOG_LISTING_FILE = Inl e
      \<and> stem n \<noteq> ''.'' \<and> stem n \<noteq> ''..'' \<and> stem n \<notin> stem ` set after
      \<and> read_src w n = Inr content \<and> read_out w TEMPLATE_FILE = Inr template
      \<longrightarrow> main env w = (Some e, print_event UpdatingListing w_loop)
          \<and> out_dir (snd (main env w)) (stem n)
              = Some (Dir (Doc (fill_template env (fst (parse_frontmatter content))
                  (markdown_to_html env (snd (parse_frontmatter content))) (stem n) template))))"
proof (intro conjI impI)
  assume a: "read_out w TEMPLATE_FILE = Inl e \<and> glob_md w = n # ns \<and> read_src w n = Inr content"
  then have "process_files env (n # ns) w [] = (Some e, print_event (Processing n) w, [])"
    by (auto simp: generate_blog_post_def Let_def split: prod.splits)
  with a show "main env w = (Some e, print_event (Processing n) w)"
    by (simp add: main_def)
next
  assume b: "glob_md w = before @ n # after
      \<and> process_files env (glob_md w) w [] = (None, w_loop, posts)
      \<and> read_out w_loop BLOG_LISTING_FILE = Inl e
      \<and> stem n \<noteq> ''.'' \<and> stem n \<noteq> ''..'' \<and> stem n \<notin> stem ` set after
      \<and> read_src w n = Inr content \<and> read_out w TEMPLATE_FILE = Inr template"
  then have "update_blog_listing posts (print_event UpdatingListing w_loop) = Inl e"
    by (simp add: update_blog_listing_def)
  moreover from b have g: "glob_md w = before @ n # after"
    and p: "process_files env (glob_md w) w [] = (None, w_loop, posts)" by blast+
  note run = p [unfolded g]
  ultimately show m: "main env w = (Some e, print_event UpdatingListing w_loop)"
    using b by (simp add: main_def)
  from process_files_page [OF run] b
  have "out_dir w_loop (stem n)
      = Some (Dir (Doc (fill_template env (fst (parse_frontmatter content))
                  (markdown_to_html env (snd (parse_frontmatter content))) (stem n) template)))"
    by blast
  then show "out_dir (snd (main env w)) (stem n)
      = Some (Dir (Doc (fill_template env (fst (parse_frontmatter content))
                  (markdown_to_html env (snd (parse_frontmatter content))) (stem n) template)))"
    by (simp add: m)
qed

theorem unreadable_file_aborts_witness:
  "read_out no_template_world TEMPLATE_FILE = Inl FileNotFoundError
   \<and> glob_md no_template_world = [''a.md'']
   \<and> read_src no_template_world ''a.md'' = Inr ''hi''
   \<and> main example_env no_template_world
       = (Some FileNotFoundError, print_event (Processing ''a.md'') no_template_world)
   \<and> glob_md no_listing_world = [] @ ''winter.md'' # [''summer.md'']
   \<and> fst (process_files example_env (glob_md no_listing_world) no_listing_world []) = None
   \<and> read_out (fst (snd (process_files example_env (glob_md no_listing_world) no_listing_world [])))
        BLOG_LISTING_FILE = Inl FileNotFoundError
   \<and> stem ''winter.md'' \<notin> stem ` set [''summer.md'']
   \<and> fst (main example_env no_listing_world) = Some FileNotFoundError
   \<and> out_dir (snd (main example_env no_listing_world)) ''winter''
       = Some (Dir (Doc ''<p>snow</p>''))"
proof -
  let ?run = "process_files example_env (glob_md no_listing_world) no_listing_world []"
  have a1: "read_out no_template_world TEMPLATE_FILE = Inl FileNotFoundError" by code_simp
  have a2: "glob_md no_template_world = [''a.md'']" by code_simp
  have a3: "read_src no_template_world ''a.md'' = Inr ''hi''" by code_simp
  from unreadable_file_aborts
    [where w = no_template_world and e = FileNotFoundError and n = "''a.md''" and ns = "[]"
       and content = "''hi''" and env = example_env] a1 a2 a3
  have a: "main example_env no_template_world
       = (Some FileNotFoundError, print_event (Processing ''a.md'') no_template_world)"
    by blast
  have b1: "glob_md no_listing_world = [] @ ''winter.md'' # [''summer.md'']" by code_simp
  have b2: "fst ?run = None" by code_simp
  then have run: "?run = (None, fst (snd ?run), snd (snd ?run))" by (metis prod.collapse)
  have b3: "read_out (fst (snd ?run)) BLOG_LISTING_FILE = Inl FileNotFoundError" by code_simp
  have b4: "stem ''winter.md'' = ''winter''" "stem ''summer.md'' = ''summer''" by code_simp+
  have b5: "read_src no_listing_world ''winter.md'' = Inr ''snow''" by code_simp
  have b6: "read_out no_listing_world TEMPLATE_FILE = Inr ''<p>{{CONTENT}}</p>''" by code_simp
  have b7: "fill_template example_env (fst (parse_frontmatter ''snow''))
      (markdown_to_html example_env (snd (parse_frontmatter ''snow''))) ''winter''
      ''<p>{{CONTENT}}</p>'' = ''<p>snow</p>''" by code_simp
  have b8: "stem ''winter.md'' \<noteq> ''.''" "stem ''winter.md'' \<noteq> ''..''"
    "stem ''winter.md'' \<notin> stem ` set [''summer.md'']"
    by (simp_all add: b4)
  from unreadable_file_aborts
    [where w = no_listing_world and e = FileNotFoundError and n = "''winter.md''"
       and before = "[]" and after = "[''summer.md'']" and env = example_env
       and w_loop = "fst (snd ?run)" and posts = "snd (snd ?run)" and content = "''snow''"
       and template = "''<p>{{CONTENT}}</p>''"]
    b1 run b3 b5 b6 b8
  have "main example_env no_listing_world
          = (Some FileNotFoundError, print_event UpdatingListing (fst (snd ?run)))
        \<and> out_dir (snd (main example_env no_listing_world)) (stem ''winter.md'')
          = Some (Dir (Doc (fill_template example_env (fst (parse_frontmatter ''snow''))
              (markdown_to_html example_env (snd (parse_frontmatter ''snow'')))
              (stem ''winter.md'') ''<p>{{CONTENT}}</p>'')))"
    by blast
  then have c1: "main example_env no_listing_world
          = (Some FileNotFoundError, print_event UpdatingListing (fst (snd ?run)))"
    and c2: "out_dir (snd (main example_env no_listing_world)) (stem ''winter.md'')
          = Some (Dir (Doc (fill_template example_env (fst (parse_frontmatter ''snow''))
              (markdown_to_html example_env (snd (parse_frontmatter ''snow'')))
              (stem ''winter.md'') ''<p>{{CONTENT}}</p>'')))"
    by blast+
  have b: "fst (main example_env no_listing_world) = Some FileNotFoundError"
    "out_dir (snd (main example_env no_listing_world)) ''winter'' = Some (Dir (Doc ''<p>snow</p>''))"
    using c1 c2 [unfolded b4 b7] by (simp only: fst_conv, blast)
  from a1 a2 a3 a b1 b2 b3 b8(3) b show ?thesis by blast
qed

end
